theory Spec2Isabelle
  imports Main "HOL-Library.AList"
begin

section \<open>The DOM, the window and the event suspender\<close>

text \<open>
  A shallow embedding of \<^verbatim>\<open>chromevox/common/focuser.js\<close>. A DOM node is a reference
  (\<open>node\<close>); \<open>null\<close> is \<open>None\<close> of \<open>node option\<close>. The document is a store from
  references to the properties the code reads: \<open>constructor\<close>, \<open>tagName\<close>,
  \<open>hasAttribute\<close> (whether the object has that method, that is, whether it is an
  Element), its attributes, \<open>parentNode\<close> and \<open>childNodes\<close>. Parent pointers are
  data of the store, so a parent chain may be cyclic in the model and the loop
  that follows it may not return.
\<close>

type_synonym node = nat

record node_rec =
  constructor :: string
  tagName :: string
  hasAttribute :: bool
  attributes :: "(string \<times> string) list"
  parentNode :: "node option"
  childNodes :: "node list"

type_synonym dom = "node \<Rightarrow> node_rec"

definition getAttribute :: "dom \<Rightarrow> node \<Rightarrow> string \<Rightarrow> string option" where
  "getAttribute d n name = map_of (attributes (d n)) name"

text \<open>A Range of the window's selection: start container and offset, end container and offset.\<close>

datatype range = Range node nat node nat

text \<open>
  The two closures the code passes to \<open>window.setTimeout\<close>: lines 83-86 (focus, then
  \<open>exitSuspendEvents\<close>) and lines 89-91 (focus only).
\<close>

datatype callback = FocusThenExitSuspend node | FocusOnly node

text \<open>Every call the code makes on the platform or on the event suspender, in order.\<close>

datatype event =
    Blur node
  | SetAttribute node string string
  | EnterSuspendEvents
  | ExitSuspendEvents
  | SetTimeout callback
  | Focus node
  | Select node
  | RemoveAllRanges
  | AddRange range

datatype error = TypeError

text \<open>
  The state a call works on: the document, \<open>document.body\<close>,
  \<open>document.activeElement\<close>, the ranges of \<open>window.getSelection()\<close>, the state of
  \<open>cvox.ChromeVoxEventSuspender\<close> (of any type \<open>'s\<close>), the callbacks waiting in the
  timer queue, and the trace of calls made so far.
\<close>

record 's world =
  document :: dom
  body :: "node option"
  activeElement :: "node option"
  selection :: "range list"
  suspendState :: 's
  timers :: "callback list"
  trace :: "event list"

subsection \<open>Collaborators that are not part of the file\<close>

text \<open>
  \<open>cvox.DomUtil\<close> and \<open>cvox.ChromeVoxEventSuspender\<close> are required by the file and
  defined elsewhere, so \<open>setFocus\<close> takes them as parameters. The two helpers that
  traverse the tree return \<open>None\<close> when they do not return.
\<close>

record domutil =
  isDescendantOfNode :: "dom \<Rightarrow> node option \<Rightarrow> node option \<Rightarrow> bool option"
  isFocusable :: "dom \<Rightarrow> node option \<Rightarrow> bool"
  findFocusableDescendant :: "dom \<Rightarrow> node option \<Rightarrow> node option option"
  isInputTypeText :: "dom \<Rightarrow> node option \<Rightarrow> bool"

record 's suspender =
  areEventsSuspended :: "'s \<Rightarrow> bool"
  enterSuspendEvents :: "'s \<Rightarrow> 's"
  exitSuspendEvents :: "'s \<Rightarrow> 's"

subsection \<open>Platform primitives\<close>

text \<open>
  \<open>blur\<close> on the focused element leaves the body as the active element; the
  selection is lost on a blur and on a focus (the comment on line 37).
\<close>

definition blur :: "node \<Rightarrow> 's world \<Rightarrow> 's world" where
  "blur n w = w\<lparr>activeElement := (if activeElement w = Some n then body w else activeElement w),
                selection := [],
                trace := trace w @ [Blur n]\<rparr>"

definition focus :: "node \<Rightarrow> 's world \<Rightarrow> 's world" where
  "focus n w = w\<lparr>activeElement := Some n, selection := [], trace := trace w @ [Focus n]\<rparr>"

definition setAttribute :: "node \<Rightarrow> string \<Rightarrow> string \<Rightarrow> 's world \<Rightarrow> 's world" where
  "setAttribute n name v w =
     w\<lparr>document := (document w)(n := (document w n)\<lparr>attributes := AList.update name v (attributes (document w n))\<rparr>),
       trace := trace w @ [SetAttribute n name v]\<rparr>"

definition select :: "node \<Rightarrow> 's world \<Rightarrow> 's world" where
  "select n w = w\<lparr>trace := trace w @ [Select n]\<rparr>"

definition removeAllRanges :: "'s world \<Rightarrow> 's world" where
  "removeAllRanges w = w\<lparr>selection := [], trace := trace w @ [RemoveAllRanges]\<rparr>"

definition addRange :: "range \<Rightarrow> 's world \<Rightarrow> 's world" where
  "addRange r w = w\<lparr>selection := selection w @ [r], trace := trace w @ [AddRange r]\<rparr>"

definition setTimeout :: "callback \<Rightarrow> 's world \<Rightarrow> 's world" where
  "setTimeout cb w = w\<lparr>timers := timers w @ [cb], trace := trace w @ [SetTimeout cb]\<rparr>"

definition enterSuspend :: "'s suspender \<Rightarrow> 's world \<Rightarrow> 's world" where
  "enterSuspend es w = w\<lparr>suspendState := enterSuspendEvents es (suspendState w),
                          trace := trace w @ [EnterSuspendEvents]\<rparr>"

definition exitSuspend :: "'s suspender \<Rightarrow> 's world \<Rightarrow> 's world" where
  "exitSuspend es w = w\<lparr>suspendState := exitSuspendEvents es (suspendState w),
                         trace := trace w @ [ExitSuspendEvents]\<rparr>"

text \<open>Running a deferred callback, and the whole timer queue in FIFO order.\<close>

fun runCallback :: "'s suspender \<Rightarrow> callback \<Rightarrow> 's world \<Rightarrow> 's world" where
  "runCallback es (FocusThenExitSuspend n) w = exitSuspend es (focus n w)"
| "runCallback es (FocusOnly n) w = focus n w"

definition runTimers :: "'s suspender \<Rightarrow> 's world \<Rightarrow> 's world" where
  "runTimers es w = fold (runCallback es) (timers w) (w\<lparr>timers := []\<rparr>)"

section \<open>cvox.Focuser\<close>

text \<open>\<open>cvox.Focuser.shouldEnterSuspendEvents_\<close>, lines 117-125.\<close>

definition shouldEnterSuspendEvents :: "dom \<Rightarrow> node \<Rightarrow> bool" where
  "shouldEnterSuspendEvents d targetNode =
     (if constructor (d targetNode) = ''HTMLVideoElement'' then False
      else if hasAttribute (d targetNode) \<and> getAttribute d targetNode ''type'' = Some ''time'' then False
      else True)"

text \<open>Lines 38-42: the first range of the selection, if it has one.\<close>

definition savedRange :: "'s world \<Rightarrow> range option" where
  "savedRange w = (if length (selection w) > 0 then Some (selection w ! 0) else None)"

text \<open>Lines 44-47: blur the focused element unless the target is inside it.\<close>

definition blurIfNotDescendant :: "domutil \<Rightarrow> node option \<Rightarrow> 's world \<Rightarrow> 's world option" where
  "blurIfNotDescendant du targetNode w =
     (case activeElement w of
        None \<Rightarrow> Some w
      | Some a \<Rightarrow>
          (case isDescendantOfNode du (document w) targetNode (Some a) of
             None \<Rightarrow> None
           | Some inside \<Rightarrow> Some (if \<not> inside then blur a w else w)))"

text \<open>Lines 50-54: a video element that is not focusable gets \<open>tabIndex\<close> 0.\<close>

definition forceVideoFocusable :: "domutil \<Rightarrow> node option \<Rightarrow> 's world \<Rightarrow> 's world" where
  "forceVideoFocusable du targetNode w =
     (case targetNode of
        None \<Rightarrow> w
      | Some t \<Rightarrow>
          if constructor (document w t) = ''HTMLVideoElement'' then
            (if \<not> isFocusable du (document w) targetNode
             then setAttribute t ''tabIndex'' ''0'' w else w)
          else w)"

text \<open>
  Lines 63-65: the loop up the parent chain. It does not return on a cyclic chain
  without a focusable node; then its value is \<open>None\<close>.
\<close>

partial_function (option) searchUp :: "domutil \<Rightarrow> dom \<Rightarrow> node option \<Rightarrow> node option option" where
  "searchUp du d targetNode =
     (case targetNode of
        None \<Rightarrow> Some None
      | Some n \<Rightarrow>
          if \<not> isFocusable du d targetNode then searchUp du d (parentNode (d n))
          else Some targetNode)"

declare searchUp.simps [code]

text \<open>Lines 56-66: the node the call will try to focus.\<close>

definition resolveTarget :: "domutil \<Rightarrow> dom \<Rightarrow> node option \<Rightarrow> bool \<Rightarrow> node option option" where
  "resolveTarget du d targetNode opt_focusDescendants =
     (if opt_focusDescendants \<and> \<not> isFocusable du d targetNode then
        (case findFocusableDescendant du d targetNode of
           None \<Rightarrow> None
         | Some focusableDescendant \<Rightarrow>
             Some (if focusableDescendant \<noteq> None then focusableDescendant else targetNode))
      else searchUp du d targetNode)"

text \<open>
  Lines 69-97: schedule the focus call, or blur. Reading \<open>tagName\<close> of \<open>null\<close> is
  a TypeError.
\<close>

definition focusOrBlur :: "domutil \<Rightarrow> 's suspender \<Rightarrow> node option \<Rightarrow> 's world \<Rightarrow> error + 's world" where
  "focusOrBlur du es targetNode w =
     (if isFocusable du (document w) targetNode then
        (case targetNode of
           None \<Rightarrow> Inl TypeError
         | Some t \<Rightarrow>
             if tagName (document w t) \<noteq> ''IFRAME'' then
               (if areEventsSuspended es (suspendState w) then
                  Inr (setTimeout (FocusThenExitSuspend t)
                        (if shouldEnterSuspendEvents (document w) t then enterSuspend es w else w))
                else Inr (setTimeout (FocusOnly t) w))
             else Inr w)
      else
        (case activeElement w of
           None \<Rightarrow> Inr w
         | Some a \<Rightarrow> if tagName (document w a) \<noteq> ''BODY'' then Inr (blur a w) else Inr w))"

text \<open>Lines 100-105: select the text box, or put the saved range back.\<close>

definition restoreSelection :: "domutil \<Rightarrow> range option \<Rightarrow> node option \<Rightarrow> 's world \<Rightarrow> error + 's world" where
  "restoreSelection du rng targetNode w =
     (if isInputTypeText du (document w) targetNode then
        (case targetNode of
           None \<Rightarrow> Inl TypeError
         | Some t \<Rightarrow> Inr (select t w))
      else
        (case rng of
           None \<Rightarrow> Inr w
         | Some r \<Rightarrow> Inr (addRange r (removeAllRanges w))))"

text \<open>
  \<open>cvox.Focuser.setFocus\<close>, lines 36-106. The result is \<open>None\<close> when the call does
  not return, \<open>Some (Inl e)\<close> when it throws, \<open>Some (Inr w')\<close> when it returns in
  state \<open>w'\<close> (the deferred callback not yet run).
\<close>

definition setFocus ::
  "domutil \<Rightarrow> 's suspender \<Rightarrow> 's world \<Rightarrow> node option \<Rightarrow> bool \<Rightarrow> (error + 's world) option" where
  "setFocus du es w targetNode opt_focusDescendants =
     (let rng = savedRange w in
      case blurIfNotDescendant du targetNode w of
        None \<Rightarrow> None
      | Some w1 \<Rightarrow>
          (let w2 = forceVideoFocusable du targetNode w1 in
           (case resolveTarget du (document w2) targetNode opt_focusDescendants of
              None \<Rightarrow> None
            | Some target \<Rightarrow>
                Some (case focusOrBlur du es target w2 of
                        Inl e \<Rightarrow> Inl e
                      | Inr w3 \<Rightarrow> restoreSelection du rng target w3))))"

text \<open>
  The state in which lines 56-66 resolve the target: the state after lines 44-54.
\<close>

definition prepare :: "domutil \<Rightarrow> node option \<Rightarrow> 's world \<Rightarrow> 's world option" where
  "prepare du targetNode w =
     map_option (forceVideoFocusable du targetNode) (blurIfNotDescendant du targetNode w)"

text \<open>The calls made between two states, read off the trace.\<close>

definition callsMade :: "'s world \<Rightarrow> 's world \<Rightarrow> event list" where
  "callsMade w w' = drop (length (trace w)) (trace w')"

text \<open>The calls on the event suspender, the timer and \<open>focus\<close>.\<close>

fun suspensionOrFocusCall :: "event \<Rightarrow> bool" where
  "suspensionOrFocusCall EnterSuspendEvents = True"
| "suspensionOrFocusCall ExitSuspendEvents = True"
| "suspensionOrFocusCall (SetTimeout cb) = True"
| "suspensionOrFocusCall (Focus n) = True"
| "suspensionOrFocusCall e = False"

fun blurCall :: "event \<Rightarrow> bool" where
  "blurCall (Blur n) = True"
| "blurCall e = False"

text \<open>The calls on the selection and on a text box.\<close>

fun selectionCall :: "event \<Rightarrow> bool" where
  "selectionCall (Select n) = True"
| "selectionCall RemoveAllRanges = True"
| "selectionCall (AddRange r) = True"
| "selectionCall e = False"

fun attributeCall :: "event \<Rightarrow> bool" where
  "attributeCall (SetAttribute n a v) = True"
| "attributeCall e = False"

section \<open>The shape of the tree\<close>

text \<open>
  The parent chain of a node: \<open>nthAncestor d n k\<close> is the node reached from \<open>n\<close> by
  \<open>k\<close> steps to the parent (\<open>n\<close> itself for \<open>k = 0\<close>), and \<open>None\<close> once the chain has
  ended. A chain is finite when some \<open>nthAncestor d n k\<close> is \<open>None\<close>; a cyclic chain
  never is.
\<close>

fun nthAncestor :: "dom \<Rightarrow> node option \<Rightarrow> nat \<Rightarrow> node option" where
  "nthAncestor d n 0 = n"
| "nthAncestor d n (Suc k) =
     (case n of None \<Rightarrow> None | Some m \<Rightarrow> nthAncestor d (parentNode (d m)) k)"

text \<open>
  The descendants of a node in pre-order (document order), down to depth \<open>k\<close>:
  each child, followed by its own descendants, before the next child.
  \<open>depthWithin k d n\<close> says that the tree below \<open>n\<close> is no deeper than \<open>k\<close>, so
  that \<open>preorder k d n\<close> lists all of it.
\<close>

fun preorder :: "nat \<Rightarrow> dom \<Rightarrow> node \<Rightarrow> node list" where
  "preorder 0 d n = []"
| "preorder (Suc k) d n = concat (map (\<lambda>c. c # preorder k d c) (childNodes (d n)))"

fun depthWithin :: "nat \<Rightarrow> dom \<Rightarrow> node \<Rightarrow> bool" where
  "depthWithin 0 d n = (childNodes (d n) = [])"
| "depthWithin (Suc k) d n = list_all (depthWithin k d) (childNodes (d n))"

text \<open>
  Below \<open>n\<close>, down to depth \<open>k\<close>, the parent of every child is the node it is a
  child of.
\<close>

fun parentLinked :: "nat \<Rightarrow> dom \<Rightarrow> node \<Rightarrow> bool" where
  "parentLinked 0 d n = True"
| "parentLinked (Suc k) d n =
     list_all (\<lambda>c. parentNode (d c) = Some n \<and> parentLinked k d c) (childNodes (d n))"

section \<open>The collaborators as the specification describes them\<close>

text \<open>
  Modelled from the spec: \<open>DomUtil.isFocusable\<close> is not in the file. The glossary
  calls a node focusable when it "can receive input focus per platform rules
  (tabindex, natively focusable elements, etc.)"; \<open>null\<close> is not focusable.
\<close>

definition spec_isFocusable :: "dom \<Rightarrow> node option \<Rightarrow> bool" where
  "spec_isFocusable d targetNode =
     (case targetNode of
        None \<Rightarrow> False
      | Some n \<Rightarrow>
          (case getAttribute d n ''tabIndex'' of
             Some v \<Rightarrow> True
           | None \<Rightarrow> tagName (d n) \<in> set [''A'', ''BUTTON'', ''INPUT'', ''SELECT'', ''TEXTAREA'', ''IFRAME'']))"

text \<open>
  Modelled from the spec: \<open>DomUtil.isInputTypeText\<close> is not in the file. It holds of
  "a text-input-like element": here an \<open>INPUT\<close> with no \<open>type\<close> or a textual one.
\<close>

definition spec_isInputTypeText :: "dom \<Rightarrow> node option \<Rightarrow> bool" where
  "spec_isInputTypeText d targetNode =
     (case targetNode of
        None \<Rightarrow> False
      | Some n \<Rightarrow>
          tagName (d n) = ''INPUT'' \<and>
          (case getAttribute d n ''type'' of
             None \<Rightarrow> True
           | Some ty \<Rightarrow> ty \<in> set [''text'', ''password'', ''search'', ''email'', ''url'', ''tel'', ''number'']))"

text \<open>
  Modelled from the spec: \<open>DomUtil.isDescendantOfNode\<close> is not in the file. By step 2
  it holds when the first node is the second or a descendant of it; the parent
  chain of the first node is followed until the second is met or the chain ends.
\<close>

partial_function (option) spec_isDescendantOfNode :: "dom \<Rightarrow> node option \<Rightarrow> node option \<Rightarrow> bool option" where
  "spec_isDescendantOfNode d n ancestor =
     (case n of
        None \<Rightarrow> Some False
      | Some m \<Rightarrow>
          (case ancestor of
             None \<Rightarrow> Some False
           | Some a \<Rightarrow> if m = a then Some True else spec_isDescendantOfNode d (parentNode (d m)) ancestor))"

declare spec_isDescendantOfNode.simps [code]

text \<open>
  Modelled from the spec: \<open>DomUtil.findFocusableDescendant\<close> is not in the file. By
  step 4 it searches the descendants of the node in pre-order for the first
  focusable one and yields \<open>null\<close> when there is none. The search keeps the nodes
  still to visit on a stack: the children of a visited node go before its
  siblings.
\<close>

partial_function (option) preorderSearch ::
  "(dom \<Rightarrow> node option \<Rightarrow> bool) \<Rightarrow> dom \<Rightarrow> node list \<Rightarrow> node option option" where
  "preorderSearch focusable d stack =
     (case stack of
        [] \<Rightarrow> Some None
      | n # rest \<Rightarrow>
          if focusable d (Some n) then Some (Some n)
          else preorderSearch focusable d (childNodes (d n) @ rest))"

declare preorderSearch.simps [code]

definition spec_findFocusableDescendant ::
  "(dom \<Rightarrow> node option \<Rightarrow> bool) \<Rightarrow> dom \<Rightarrow> node option \<Rightarrow> node option option" where
  "spec_findFocusableDescendant focusable d targetNode =
     (case targetNode of
        None \<Rightarrow> Some None
      | Some n \<Rightarrow> preorderSearch focusable d (childNodes (d n)))"

definition DomUtil :: domutil where
  "DomUtil = \<lparr>isDescendantOfNode = spec_isDescendantOfNode,
              isFocusable = spec_isFocusable,
              findFocusableDescendant = spec_findFocusableDescendant spec_isFocusable,
              isInputTypeText = spec_isInputTypeText\<rparr>"

text \<open>
  Modelled from the spec: \<open>cvox.ChromeVoxEventSuspender\<close> is not in the file. The spec
  calls it a "process-wide flag" of boolean state: entering sets it, exiting
  clears it.
\<close>

definition ChromeVoxEventSuspender :: "bool suspender" where
  "ChromeVoxEventSuspender = \<lparr>areEventsSuspended = (\<lambda>s. s),
                              enterSuspendEvents = (\<lambda>s. True),
                              exitSuspendEvents = (\<lambda>s. False)\<rparr>"

section \<open>A page to run the code on\<close>

definition element :: "string \<Rightarrow> string \<Rightarrow> (string \<times> string) list \<Rightarrow> node option \<Rightarrow> node list \<Rightarrow> node_rec" where
  "element c tag attrs parent children =
     \<lparr>constructor = c, tagName = tag, hasAttribute = True, attributes = attrs,
      parentNode = parent, childNodes = children\<rparr>"

definition textNode :: "node option \<Rightarrow> node_rec" where
  "textNode parent =
     \<lparr>constructor = ''Text'', tagName = [], hasAttribute = False, attributes = [],
      parentNode = parent, childNodes = []\<rparr>"

text \<open>
  The body (0) holds a \<open>div\<close> (1) with a \<open>span\<close> (2) around a link (4) and a button
  (3); a video without tab index (5); a time input (6); an iframe (7); a text
  input (8); a \<open>div\<close> with a tab index (10) around a paragraph (9); and a video
  with a tab index (11). Every other reference is a detached text node.
\<close>

definition page :: dom where
  "page =
     (\<lambda>n. textNode None)
     (0 := element ''HTMLBodyElement'' ''BODY'' [] None [1, 5, 6, 7, 8, 10, 11],
      1 := element ''HTMLDivElement'' ''DIV'' [] (Some 0) [2, 3],
      2 := element ''HTMLSpanElement'' ''SPAN'' [] (Some 1) [4],
      3 := element ''HTMLButtonElement'' ''BUTTON'' [] (Some 1) [],
      4 := element ''HTMLAnchorElement'' ''A'' [(''href'', ''#top'')] (Some 2) [],
      5 := element ''HTMLVideoElement'' ''VIDEO'' [] (Some 0) [],
      6 := element ''HTMLInputElement'' ''INPUT'' [(''type'', ''time'')] (Some 0) [],
      7 := element ''HTMLIFrameElement'' ''IFRAME'' [] (Some 0) [],
      8 := element ''HTMLInputElement'' ''INPUT'' [(''type'', ''text'')] (Some 0) [],
      9 := element ''HTMLParagraphElement'' ''P'' [] (Some 10) [],
      10 := element ''HTMLDivElement'' ''DIV'' [(''tabIndex'', ''0'')] (Some 0) [9],
      11 := element ''HTMLVideoElement'' ''VIDEO'' [(''tabIndex'', ''0'')] (Some 0) [])"

text \<open>
  The window: the body has the focus, one range is selected, and events are
  suspended or not.
\<close>

definition window :: "bool \<Rightarrow> bool world" where
  "window suspended =
     \<lparr>document = page, body = Some 0, activeElement = Some 0,
      selection = [Range 2 0 2 1], suspendState = suspended, timers = [], trace = []\<rparr>"

text \<open>
  The same page with one more child of the body: a video without tab index (12)
  that holds a link (13).
\<close>

definition videoPage :: dom where
  "videoPage =
     page
     (0 := element ''HTMLBodyElement'' ''BODY'' [] None [1, 5, 6, 7, 8, 10, 11, 12],
      12 := element ''HTMLVideoElement'' ''VIDEO'' [] (Some 0) [13],
      13 := element ''HTMLAnchorElement'' ''A'' [(''href'', ''#subtitles'')] (Some 12) [])"

definition videoWindow :: "bool \<Rightarrow> bool world" where
  "videoWindow suspended = (window suspended)\<lparr>document := videoPage\<rparr>"

section \<open>Properties of setFocus\<close>

subsection \<open>What each step leaves alone\<close>

lemmas platform_defs = blur_def focus_def setAttribute_def select_def removeAllRanges_def
  addRange_def setTimeout_def enterSuspend_def exitSuspend_def

lemmas run_defs = setFocus_def prepare_def savedRange_def blurIfNotDescendant_def
  forceVideoFocusable_def resolveTarget_def focusOrBlur_def restoreSelection_def
  shouldEnterSuspendEvents_def getAttribute_def platform_defs runTimers_def callsMade_def
  DomUtil_def ChromeVoxEventSuspender_def spec_isFocusable_def spec_isInputTypeText_def
  spec_findFocusableDescendant_def page_def window_def element_def textNode_def
  searchUp.simps spec_isDescendantOfNode.simps preorderSearch.simps

lemma setFocus_prepare:
  "setFocus du es w targetNode opt =
    (case prepare du targetNode w of
       None \<Rightarrow> None
     | Some w2 \<Rightarrow>
         (case resolveTarget du (document w2) targetNode opt of
            None \<Rightarrow> None
          | Some target \<Rightarrow>
              Some (case focusOrBlur du es target w2 of
                      Inl e \<Rightarrow> Inl e
                    | Inr w3 \<Rightarrow> restoreSelection du (savedRange w) target w3)))"
  by (simp add: setFocus_def prepare_def Let_def split: option.splits)

lemma setFocus_steps:
  assumes "setFocus du es w targetNode opt = Some (Inr w')"
  obtains w1 r w3 where
    "blurIfNotDescendant du targetNode w = Some w1"
    "resolveTarget du (document (forceVideoFocusable du targetNode w1)) targetNode opt = Some r"
    "focusOrBlur du es r (forceVideoFocusable du targetNode w1) = Inr w3"
    "restoreSelection du (savedRange w) r w3 = Inr w'"
  using assms by (auto simp: setFocus_def Let_def split: option.splits sum.splits)

lemma prepare_frame:
  assumes "prepare du targetNode w = Some w2"
  shows "suspendState w2 = suspendState w" and "timers w2 = timers w" and "body w2 = body w"
  using assms
  by (auto simp: prepare_def blurIfNotDescendant_def forceVideoFocusable_def platform_defs
      split: option.splits if_splits)

lemma prepare_trace:
  assumes "prepare du targetNode w = Some w2"
  shows "\<exists>pre. trace w2 = trace w @ pre \<and> filter suspensionOrFocusCall pre = []
            \<and> filter selectionCall pre = []"
  using assms
  by (auto simp: prepare_def blurIfNotDescendant_def forceVideoFocusable_def platform_defs
      split: option.splits if_splits)

lemma prepare_blur_calls:
  assumes "prepare du targetNode w = Some w2"
  shows "\<exists>pre. trace w2 = trace w @ pre
            \<and> filter blurCall pre =
                (case activeElement w of
                   None \<Rightarrow> []
                 | Some a \<Rightarrow>
                     if isDescendantOfNode du (document w) targetNode (Some a) = Some False
                     then [Blur a] else [])"
  using assms
  by (auto simp: prepare_def blurIfNotDescendant_def forceVideoFocusable_def platform_defs
      split: option.splits if_splits)

text \<open>Lines 50-54 change the document only for a video element.\<close>

lemma prepare_document_unchanged:
  assumes "prepare du (Some N) w = Some w2"
    and "constructor (document w N) \<noteq> ''HTMLVideoElement''"
  shows "document w2 = document w"
  using assms
  by (auto simp: prepare_def blurIfNotDescendant_def forceVideoFocusable_def blur_def
      split: option.splits if_splits)

lemma restoreSelection_frame:
  assumes "restoreSelection du rng r w3 = Inr w'"
  shows "timers w' = timers w3" and "suspendState w' = suspendState w3"
  using assms
  by (auto simp: restoreSelection_def platform_defs split: option.splits if_splits)

lemma blurIfNotDescendant_trace:
  assumes "blurIfNotDescendant du targetNode w = Some w1"
  shows "document w1 = document w
     \<and> (\<exists>pre. trace w1 = trace w @ pre \<and> filter suspensionOrFocusCall pre = []
            \<and> filter selectionCall pre = [] \<and> filter attributeCall pre = [])"
  using assms
  by (auto simp: blurIfNotDescendant_def blur_def split: option.splits if_splits)

lemma forceVideoFocusable_frame:
  "activeElement (forceVideoFocusable du targetNode w) = activeElement w"
  "tagName (document (forceVideoFocusable du targetNode w) a) = tagName (document w a)"
  "\<exists>v. trace (forceVideoFocusable du targetNode w) = trace w @ v \<and> filter blurCall v = []"
  by (auto simp: forceVideoFocusable_def setAttribute_def split: option.splits)

lemma focusOrBlur_trace:
  assumes "focusOrBlur du es r w2 = Inr w3"
  shows "document w3 = document w2
     \<and> (\<exists>mid. trace w3 = trace w2 @ mid \<and> filter selectionCall mid = []
            \<and> filter attributeCall mid = [])"
  using assms
  by (auto simp: focusOrBlur_def platform_defs split: option.splits if_splits)

lemma restoreSelection_trace:
  assumes "restoreSelection du rng r w3 = Inr w'"
  shows "document w' = document w3
     \<and> (\<exists>post. trace w' = trace w3 @ post \<and> filter blurCall post = []
            \<and> filter attributeCall post = [])"
  using assms
  by (auto simp: restoreSelection_def platform_defs split: option.splits if_splits)

subsection \<open>The event suspender around the deferred focus call\<close>

text \<open>
  What lines 79-87 do for a target that \<open>shouldEnterSuspendEvents_\<close> excludes (a
  video element, or an element whose \<open>type\<close> is \<open>time\<close>) while events are
  suspended: \<open>enterSuspendEvents\<close> is not called, and the callback that is
  scheduled is the one of lines 83-86, which calls \<open>exitSuspendEvents\<close> after the
  focus call.
\<close>

lemma setFocus_suspended_excluded_target:
  assumes "prepare du targetNode w = Some w2"
    and "resolveTarget du (document w2) targetNode opt = Some (Some t)"
    and "isFocusable du (document w2) (Some t)"
    and "tagName (document w2 t) \<noteq> ''IFRAME''"
    and "\<not> shouldEnterSuspendEvents (document w2) t"
    and "areEventsSuspended es (suspendState w)"
  shows "\<exists>w'. setFocus du es w targetNode opt = Some (Inr w')
     \<and> filter suspensionOrFocusCall (callsMade w w') = [SetTimeout (FocusThenExitSuspend t)]
     \<and> (\<forall>v. callsMade v (runCallback es (FocusThenExitSuspend t) v) = [Focus t, ExitSuspendEvents])"
proof -
  from prepare_trace[OF assms(1)] obtain pre where
    pre: "trace w2 = trace w @ pre" "filter suspensionOrFocusCall pre = []" by blast
  show ?thesis
    using assms(2-) prepare_frame[OF assms(1)] pre
    by (auto simp: setFocus_prepare assms(1) focusOrBlur_def restoreSelection_def
        platform_defs callsMade_def split: option.splits)
qed

text \<open>
  C1. The claim: when events are suspended at call time and the resolved target
  is a video element or has \<open>type\<close> equal to \<open>time\<close> (and is not an iframe),
  neither \<open>enterSuspendEvents\<close> nor \<open>exitSuspendEvents\<close> is invoked, synchronously
  or by the deferred callback. The code does not keep it: on the page above,
  with events suspended, \<open>setFocus\<close> on the video (5) and on the time input (6)
  skips \<open>enterSuspendEvents\<close> but schedules the callback of lines 83-86, and
  running the timers calls \<open>exitSuspendEvents\<close> after the focus call, which
  clears the flag although this call never set it.
\<close>

theorem setFocus_suspended_video_exit_invoked:
  "(\<exists>w'. setFocus DomUtil ChromeVoxEventSuspender (window True) (Some 5) False = Some (Inr w')
       \<and> filter suspensionOrFocusCall (callsMade (window True) w') = [SetTimeout (FocusThenExitSuspend 5)]
       \<and> callsMade w' (runTimers ChromeVoxEventSuspender w') = [Focus 5, ExitSuspendEvents]
       \<and> suspendState (runTimers ChromeVoxEventSuspender w') = False)
   \<and> (\<exists>w'. setFocus DomUtil ChromeVoxEventSuspender (window True) (Some 6) False = Some (Inr w')
       \<and> filter suspensionOrFocusCall (callsMade (window True) w') = [SetTimeout (FocusThenExitSuspend 6)]
       \<and> callsMade w' (runTimers ChromeVoxEventSuspender w') = [Focus 6, ExitSuspendEvents]
       \<and> suspendState (runTimers ChromeVoxEventSuspender w') = False)"
  by (simp add: run_defs)

text \<open>
  C2. When events are suspended at call time and the resolved target is
  focusable, not an iframe, not a video element and without \<open>type\<close> equal to
  \<open>time\<close>, the call returns; of the calls on the suspender, the timer and
  \<open>focus\<close> it makes exactly two, \<open>enterSuspendEvents\<close> and then \<open>setTimeout\<close> with
  the callback of lines 83-86; and that callback, run in any state, calls
  \<open>focus\<close> on the target and \<open>exitSuspendEvents\<close> right after it.
\<close>

theorem setFocus_suspended_enters_then_exits:
  assumes "prepare du targetNode w = Some w2"
    and "resolveTarget du (document w2) targetNode opt = Some (Some t)"
    and "isFocusable du (document w2) (Some t)"
    and "tagName (document w2 t) \<noteq> ''IFRAME''"
    and "constructor (document w2 t) \<noteq> ''HTMLVideoElement''"
    and "getAttribute (document w2) t ''type'' \<noteq> Some ''time''"
    and "areEventsSuspended es (suspendState w)"
  shows "\<exists>w'. setFocus du es w targetNode opt = Some (Inr w')
     \<and> filter suspensionOrFocusCall (callsMade w w') =
           [EnterSuspendEvents, SetTimeout (FocusThenExitSuspend t)]
     \<and> timers w' = timers w @ [FocusThenExitSuspend t]
     \<and> (\<forall>v. callsMade v (runCallback es (FocusThenExitSuspend t) v) = [Focus t, ExitSuspendEvents])"
proof -
  from prepare_trace[OF assms(1)] obtain pre where
    pre: "trace w2 = trace w @ pre" "filter suspensionOrFocusCall pre = []" by blast
  show ?thesis
    using assms(2-) prepare_frame[OF assms(1)] pre
    by (auto simp: setFocus_prepare assms(1) focusOrBlur_def restoreSelection_def
        shouldEnterSuspendEvents_def platform_defs callsMade_def split: option.splits)
qed

text \<open>
  On the page: events are suspended, the target is the \<open>div\<close> (1) with its
  descendants searched, and the link (4) is resolved.
\<close>

theorem setFocus_suspended_enters_then_exits_witness:
  "\<exists>w'. setFocus DomUtil ChromeVoxEventSuspender (window True) (Some 1) True = Some (Inr w')
     \<and> filter suspensionOrFocusCall (callsMade (window True) w') =
           [EnterSuspendEvents, SetTimeout (FocusThenExitSuspend 4)]
     \<and> timers w' = timers (window True) @ [FocusThenExitSuspend 4]
     \<and> (\<forall>v. callsMade v (runCallback ChromeVoxEventSuspender (FocusThenExitSuspend 4) v)
            = [Focus 4, ExitSuspendEvents])"
proof -
  have p: "prepare DomUtil (Some 1) (window True) = Some (window True)"
    by (simp add: run_defs)
  have r: "resolveTarget DomUtil (document (window True)) (Some 1) True = Some (Some 4)"
    by (simp add: run_defs)
  have f: "isFocusable DomUtil (document (window True)) (Some 4)"
    by (simp add: run_defs)
  have t: "tagName (document (window True) 4) \<noteq> ''IFRAME''"
    by (simp add: run_defs)
  have c: "constructor (document (window True) 4) \<noteq> ''HTMLVideoElement''"
    by (simp add: run_defs)
  have a: "getAttribute (document (window True)) 4 ''type'' \<noteq> Some ''time''"
    by (simp add: run_defs)
  have s: "areEventsSuspended ChromeVoxEventSuspender (suspendState (window True))"
    by (simp add: run_defs)
  show ?thesis by (rule setFocus_suspended_enters_then_exits[OF p r f t c a s])
qed


subsection \<open>An iframe is left to focus itself\<close>

text \<open>
  C6. When the resolved target is focusable and its tag is \<open>IFRAME\<close>, the call
  returns without any call on \<open>focus\<close>, \<open>setTimeout\<close> or the event suspender:
  the timer queue, the suspension state and the active element are those the
  target was resolved in.
\<close>

theorem setFocus_iframe_not_focused:
  assumes "prepare du targetNode w = Some w2"
    and "resolveTarget du (document w2) targetNode opt = Some (Some t)"
    and "isFocusable du (document w2) (Some t)"
    and "tagName (document w2 t) = ''IFRAME''"
  shows "\<exists>w'. setFocus du es w targetNode opt = Some (Inr w')
     \<and> filter suspensionOrFocusCall (callsMade w w') = []
     \<and> timers w' = timers w
     \<and> suspendState w' = suspendState w
     \<and> activeElement w' = activeElement w2"
proof -
  from prepare_trace[OF assms(1)] obtain pre where
    pre: "trace w2 = trace w @ pre" "filter suspensionOrFocusCall pre = []" by blast
  show ?thesis
    using assms(2-) prepare_frame[OF assms(1)] pre
    by (auto simp: setFocus_prepare assms(1) focusOrBlur_def restoreSelection_def
        platform_defs callsMade_def split: option.splits)
qed

text \<open>On the page: the iframe (7), with events suspended.\<close>

theorem setFocus_iframe_not_focused_witness:
  "\<exists>w'. setFocus DomUtil ChromeVoxEventSuspender (window True) (Some 7) False = Some (Inr w')
     \<and> filter suspensionOrFocusCall (callsMade (window True) w') = []
     \<and> timers w' = timers (window True)
     \<and> suspendState w' = suspendState (window True)
     \<and> activeElement w' = activeElement (window True)"
proof -
  have p: "prepare DomUtil (Some 7) (window True) = Some (window True)"
    by (simp add: run_defs)
  have r: "resolveTarget DomUtil (document (window True)) (Some 7) False = Some (Some 7)"
    by (simp add: run_defs)
  have f: "isFocusable DomUtil (document (window True)) (Some 7)"
    by (simp add: run_defs)
  have t: "tagName (document (window True) 7) = ''IFRAME''"
    by (simp add: run_defs)
  show ?thesis by (rule setFocus_iframe_not_focused[OF p r f t])
qed

subsection \<open>Nothing focusable: the blur branch\<close>

text \<open>
  C5, as amended. For \<open>setFocus(N, true)\<close> where \<open>N\<close> is not focusable when line
  56 tests it, that is, in the document that lines 50-54 leave (for an \<open>N\<close> that
  is not a video element, the document of the call, by
  \<open>prepare_document_unchanged\<close>), and \<open>findFocusableDescendant\<close> finds nothing,
  the resolved target is \<open>N\<close> itself, whatever its ancestors are: the parent
  chain is not searched. The call returns, makes no call on \<open>focus\<close>,
  \<open>setTimeout\<close> or the suspender, and after the target is resolved the only
  blur is the one of lines 94-97. The claim as stated, for every \<open>N\<close> that is
  not focusable at call time, fails for a video element: see the
  counterexample below.
\<close>

theorem setFocus_no_descendant_keeps_target:
  assumes "prepare du (Some N) w = Some w2"
    and "\<not> isFocusable du (document w2) (Some N)"
    and "findFocusableDescendant du (document w2) (Some N) = Some None"
  shows "resolveTarget du (document w2) (Some N) True = Some (Some N)
     \<and> (\<exists>w'. setFocus du es w (Some N) True = Some (Inr w')
          \<and> filter suspensionOrFocusCall (callsMade w w') = []
          \<and> filter blurCall (callsMade w2 w') =
              (case activeElement w2 of
                 None \<Rightarrow> []
               | Some a \<Rightarrow> if tagName (document w2 a) \<noteq> ''BODY'' then [Blur a] else []))"
proof -
  from prepare_trace[OF assms(1)] obtain pre where
    pre: "trace w2 = trace w @ pre" "filter suspensionOrFocusCall pre = []" by blast
  have r: "resolveTarget du (document w2) (Some N) True = Some (Some N)"
    using assms(2,3) by (simp add: resolveTarget_def)
  show ?thesis
    using assms(2) r pre
    by (auto simp: setFocus_prepare assms(1) focusOrBlur_def restoreSelection_def
        platform_defs callsMade_def split: option.splits)
qed

text \<open>
  On the page: the paragraph (9) is not focusable and has no descendants; its
  parent (10) is focusable, has the focus, and is what the walk up the parent
  chain would have found. The paragraph stays the target and its parent is
  blurred.
\<close>

theorem setFocus_no_descendant_keeps_target_witness:
  "searchUp DomUtil page (Some 9) = Some (Some 10)
   \<and> resolveTarget DomUtil page (Some 9) True = Some (Some 9)
   \<and> (\<exists>w'. setFocus DomUtil ChromeVoxEventSuspender ((window True)\<lparr>activeElement := Some 10\<rparr>) (Some 9) True
              = Some (Inr w')
          \<and> filter suspensionOrFocusCall (callsMade ((window True)\<lparr>activeElement := Some 10\<rparr>) w') = []
          \<and> filter blurCall (callsMade ((window True)\<lparr>activeElement := Some 10\<rparr>) w') = [Blur 10])"
proof -
  define w where "w = (window True)\<lparr>activeElement := Some 10\<rparr>"
  have p: "prepare DomUtil (Some 9) w = Some w"
    by (simp add: w_def run_defs)
  have n: "\<not> isFocusable DomUtil (document w) (Some 9)"
    by (simp add: w_def run_defs)
  have d: "findFocusableDescendant DomUtil (document w) (Some 9) = Some None"
    by (simp add: w_def run_defs)
  have a: "activeElement w = Some 10" "tagName (document w 10) \<noteq> ''BODY''" "document w = page"
    by (simp_all add: w_def window_def page_def element_def)
  have s: "searchUp DomUtil page (Some 9) = Some (Some 10)"
    by (simp add: run_defs)
  from setFocus_no_descendant_keeps_target[OF p n d, of ChromeVoxEventSuspender] a s
  show ?thesis unfolding w_def[symmetric] by simp
qed

text \<open>
  The claim without the amendment fails. On the page the video (5) is not
  focusable at call time and has no descendant, so \<open>findFocusableDescendant\<close>
  finds nothing; but lines 50-54 give it a tab index before line 56 tests it,
  and \<open>setFocus(video, true)\<close> defers a focus call on the video instead of
  taking the blur branch.
\<close>

theorem setFocus_video_no_descendant_counterexample:
  "\<not> isFocusable DomUtil (document (window False)) (Some 5)
   \<and> findFocusableDescendant DomUtil (document (window False)) (Some 5) = Some None
   \<and> map_option (map_sum id timers)
         (setFocus DomUtil ChromeVoxEventSuspender (window False) (Some 5) True)
       = Some (Inr [FocusOnly 5])
   \<and> map_option (map_sum id (callsMade (window False)))
         (setFocus DomUtil ChromeVoxEventSuspender (window False) (Some 5) True)
       = Some (Inr [SetAttribute 5 ''tabIndex'' ''0'', SetTimeout (FocusOnly 5),
                    RemoveAllRanges, AddRange (Range 2 0 2 1)])"
  by (simp add: run_defs)

text \<open>
  C7, as amended. When no focusable node is resolved (the resolved target may be
  \<open>null\<close>, given or reached at the end of the parent chain), the call returns
  without throwing, provided \<open>isInputTypeText(null)\<close> is false as the spec's
  null-checked helpers have it. The blur calls of the whole call are: first the
  blur of lines 44-47, on the element that has the focus at call time when the
  target is not inside it (so always for a \<open>null\<close> target, the body included);
  then the blur of lines 94-97, on the element that has the focus when those
  lines are reached if its tag is not \<open>BODY\<close>; and no other. The claim as stated
  has nothing blurred when the focused element is the body, which fails for
  \<open>setFocus(null)\<close>: see the counterexample below.
\<close>

theorem setFocus_nothing_focusable_no_fault:
  assumes "prepare du targetNode w = Some w2"
    and "resolveTarget du (document w2) targetNode opt = Some r"
    and "\<not> isFocusable du (document w2) r"
    and "\<not> isInputTypeText du (document w2) None"
  shows "\<exists>w'. setFocus du es w targetNode opt = Some (Inr w')
          \<and> filter blurCall (callsMade w2 w') =
              (case activeElement w2 of
                 None \<Rightarrow> []
               | Some a \<Rightarrow> if tagName (document w2 a) \<noteq> ''BODY'' then [Blur a] else [])
          \<and> filter blurCall (callsMade w w') =
              (case activeElement w of
                 None \<Rightarrow> []
               | Some a \<Rightarrow>
                   if isDescendantOfNode du (document w) targetNode (Some a) = Some False
                   then [Blur a] else [])
              @ (case activeElement w2 of
                   None \<Rightarrow> []
                 | Some a \<Rightarrow> if tagName (document w2 a) \<noteq> ''BODY'' then [Blur a] else [])"
proof -
  have "\<exists>w'. setFocus du es w targetNode opt = Some (Inr w')
          \<and> trace w' = trace w2 @ callsMade w2 w'
          \<and> filter blurCall (callsMade w2 w') =
              (case activeElement w2 of
                 None \<Rightarrow> []
               | Some a \<Rightarrow> if tagName (document w2 a) \<noteq> ''BODY'' then [Blur a] else [])"
    using assms(2-)
    by (cases r) (auto simp: setFocus_prepare assms(1) focusOrBlur_def restoreSelection_def
        platform_defs callsMade_def split: option.splits)
  then obtain w' where w': "setFocus du es w targetNode opt = Some (Inr w')"
    "trace w' = trace w2 @ callsMade w2 w'"
    "filter blurCall (callsMade w2 w') =
              (case activeElement w2 of
                 None \<Rightarrow> []
               | Some a \<Rightarrow> if tagName (document w2 a) \<noteq> ''BODY'' then [Blur a] else [])"
    by blast
  from prepare_blur_calls[OF assms(1)] obtain pre where
    pre: "trace w2 = trace w @ pre"
    "filter blurCall pre =
       (case activeElement w of
          None \<Rightarrow> []
        | Some a \<Rightarrow>
            if isDescendantOfNode du (document w) targetNode (Some a) = Some False
            then [Blur a] else [])"
    by blast
  define rest where "rest = callsMade w2 w'"
  have "trace w' = trace w @ (pre @ rest)"
    using w'(2) pre(1) by (simp add: rest_def)
  then have "callsMade w w' = pre @ rest"
    by (simp add: callsMade_def)
  then have "callsMade w w' = pre @ callsMade w2 w'"
    by (simp add: rest_def)
  then have "filter blurCall (callsMade w w') = filter blurCall pre @ filter blurCall (callsMade w2 w')"
    by simp
  with w' pre(2) show ?thesis by (intro exI[of _ w']) simp
qed

text \<open>
  On the page: \<open>setFocus(null)\<close> with the focus on the body, where the only blur
  is that of lines 44-47 on the body; the \<open>span\<close> (2), whose parent chain ends
  without a focusable node, where nothing is blurred; and the paragraph (9)
  with its descendants searched while its parent (10) has the focus, where the
  only blur is that of lines 94-97 on the parent.
\<close>

theorem setFocus_nothing_focusable_no_fault_witness:
  "(\<exists>w'. setFocus DomUtil ChromeVoxEventSuspender (window False) None False = Some (Inr w')
        \<and> filter blurCall (callsMade (blur 0 (window False)) w') = []
        \<and> filter blurCall (callsMade (window False) w') = [Blur 0])
   \<and> (\<exists>w'. setFocus DomUtil ChromeVoxEventSuspender (window False) (Some 2) False = Some (Inr w')
        \<and> resolveTarget DomUtil page (Some 2) False = Some None
        \<and> filter blurCall (callsMade (window False) w') = [])
   \<and> (\<exists>w'. setFocus DomUtil ChromeVoxEventSuspender ((window False)\<lparr>activeElement := Some 10\<rparr>) (Some 9) True
              = Some (Inr w')
        \<and> filter blurCall (callsMade ((window False)\<lparr>activeElement := Some 10\<rparr>) w') = [Blur 10])"
proof -
  have p1: "prepare DomUtil None (window False) = Some (blur 0 (window False))"
    by (simp add: run_defs)
  have r1: "resolveTarget DomUtil (document (blur 0 (window False))) None False = Some None"
    by (simp add: run_defs)
  have f1: "\<not> isFocusable DomUtil (document (blur 0 (window False))) None"
    by (simp add: run_defs)
  have i1: "\<not> isInputTypeText DomUtil (document (blur 0 (window False))) None"
    by (simp add: run_defs)
  have a1: "activeElement (blur 0 (window False)) = Some 0"
    "tagName (document (blur 0 (window False)) 0) = ''BODY''"
    "activeElement (window False) = Some 0"
    "isDescendantOfNode DomUtil (document (window False)) None (Some 0) = Some False"
    by (simp_all add: blur_def window_def page_def element_def DomUtil_def
        spec_isDescendantOfNode.simps)
  from setFocus_nothing_focusable_no_fault[OF p1 r1 f1 i1, of ChromeVoxEventSuspender] a1
  have c1: "\<exists>w'. setFocus DomUtil ChromeVoxEventSuspender (window False) None False = Some (Inr w')
        \<and> filter blurCall (callsMade (blur 0 (window False)) w') = []
        \<and> filter blurCall (callsMade (window False) w') = [Blur 0]"
    by simp
  have p2: "prepare DomUtil (Some 2) (window False) = Some (window False)"
    by (simp add: run_defs)
  have r2: "resolveTarget DomUtil (document (window False)) (Some 2) False = Some None"
    by (simp add: run_defs)
  have f2: "\<not> isFocusable DomUtil (document (window False)) None"
    by (simp add: run_defs)
  have i2: "\<not> isInputTypeText DomUtil (document (window False)) None"
    by (simp add: run_defs)
  have a2: "activeElement (window False) = Some 0" "tagName (document (window False) 0) = ''BODY''"
    "document (window False) = page"
    "isDescendantOfNode DomUtil page (Some 2) (Some 0) = Some True"
    by (simp_all add: window_def page_def element_def DomUtil_def spec_isDescendantOfNode.simps)
  from setFocus_nothing_focusable_no_fault[OF p2 r2 f2 i2, of ChromeVoxEventSuspender] a2 r2
  have c2: "\<exists>w'. setFocus DomUtil ChromeVoxEventSuspender (window False) (Some 2) False = Some (Inr w')
        \<and> resolveTarget DomUtil page (Some 2) False = Some None
        \<and> filter blurCall (callsMade (window False) w') = []"
    by simp
  define w where "w = (window False)\<lparr>activeElement := Some 10\<rparr>"
  have p3: "prepare DomUtil (Some 9) w = Some w"
    by (simp add: w_def run_defs)
  have r3: "resolveTarget DomUtil (document w) (Some 9) True = Some (Some 9)"
    by (simp add: w_def run_defs)
  have f3: "\<not> isFocusable DomUtil (document w) (Some 9)"
    by (simp add: w_def run_defs)
  have i3: "\<not> isInputTypeText DomUtil (document w) None"
    by (simp add: w_def run_defs)
  have a3: "activeElement w = Some 10" "tagName (document w 10) \<noteq> ''BODY''"
    "isDescendantOfNode DomUtil (document w) (Some 9) (Some 10) = Some True"
    by (simp_all add: w_def window_def page_def element_def DomUtil_def
        spec_isDescendantOfNode.simps)
  from setFocus_nothing_focusable_no_fault[OF p3 r3 f3 i3, of ChromeVoxEventSuspender] a3
  have c3: "\<exists>w'. setFocus DomUtil ChromeVoxEventSuspender w (Some 9) True = Some (Inr w')
        \<and> filter blurCall (callsMade w w') = [Blur 10]"
    by simp
  from c1 c2 c3 show ?thesis unfolding w_def by blast
qed

text \<open>
  The claim without the amendment fails. \<open>setFocus(null)\<close> with the focus on the
  body resolves no focusable node, and the element that has the focus is the
  body; yet the call blurs it, on line 46.
\<close>

theorem setFocus_null_blurs_body_counterexample:
  "activeElement (window False) = Some 0
   \<and> tagName (document (window False) 0) = ''BODY''
   \<and> map_option (map_sum id (filter blurCall \<circ> callsMade (window False)))
         (setFocus DomUtil ChromeVoxEventSuspender (window False) None False)
       = Some (Inr [Blur 0])
   \<and> map_option (map_sum id (callsMade (window False)))
         (setFocus DomUtil ChromeVoxEventSuspender (window False) None False)
       = Some (Inr [Blur 0, RemoveAllRanges, AddRange (Range 2 0 2 1)])"
  by (simp add: run_defs)

subsection \<open>The blur before the target is resolved\<close>

text \<open>
  C3. Let an element \<open>a\<close> have the focus when \<open>setFocus\<close> is called and let the
  call return. If \<open>isDescendantOfNode(targetNode, a)\<close> is false (the target is
  neither \<open>a\<close> nor below it), lines 44-47 blur \<open>a\<close>, and that blur is the first
  call the function makes, before the target is resolved and before any focus
  call. If it is true, lines 44-47 change nothing: the target is resolved in the
  state of the call, and the only blur the call can make is the one of lines
  94-97, made when no focusable target was resolved and \<open>a\<close> is not the body.
\<close>

theorem setFocus_initial_blur:
  assumes "setFocus du es w targetNode opt = Some (Inr w')"
    and "activeElement w = Some a"
  shows "(isDescendantOfNode du (document w) targetNode (Some a) = Some False \<longrightarrow>
            blurIfNotDescendant du targetNode w = Some (blur a w)
            \<and> (\<exists>rest. callsMade w w' = Blur a # rest))
       \<and> (isDescendantOfNode du (document w) targetNode (Some a) = Some True \<longrightarrow>
            blurIfNotDescendant du targetNode w = Some w
            \<and> (\<exists>w2 r. prepare du targetNode w = Some w2
                   \<and> resolveTarget du (document w2) targetNode opt = Some r
                   \<and> filter blurCall (callsMade w w') =
                       (if \<not> isFocusable du (document w2) r \<and> tagName (document w a) \<noteq> ''BODY''
                        then [Blur a] else [])))"
proof -
  from assms(1) obtain w1 r w3 where
    b: "blurIfNotDescendant du targetNode w = Some w1"
    and r: "resolveTarget du (document (forceVideoFocusable du targetNode w1)) targetNode opt = Some r"
    and f: "focusOrBlur du es r (forceVideoFocusable du targetNode w1) = Inr w3"
    and s: "restoreSelection du (savedRange w) r w3 = Inr w'"
    by (rule setFocus_steps)
  define w2 where "w2 = forceVideoFocusable du targetNode w1"
  from forceVideoFocusable_frame(3)[of du targetNode w1] obtain v where
    v: "trace w2 = trace w1 @ v" "filter blurCall v = []" unfolding w2_def by blast
  from restoreSelection_trace[OF s] obtain post where
    post: "trace w' = trace w3 @ post" "filter blurCall post = []" by blast
  from focusOrBlur_trace[OF f] obtain mid where mid: "trace w3 = trace w2 @ mid"
    unfolding w2_def by blast
  have p: "prepare du targetNode w = Some w2"
    using b by (simp add: prepare_def w2_def)
  show ?thesis
  proof (intro conjI impI)
    assume n: "isDescendantOfNode du (document w) targetNode (Some a) = Some False"
    then show "blurIfNotDescendant du targetNode w = Some (blur a w)"
      using assms(2) by (simp add: blurIfNotDescendant_def)
    with b have "w1 = blur a w" by simp
    then have "trace w1 = trace w @ [Blur a]" by (simp add: blur_def)
    with v mid post have "callsMade w w' = Blur a # (v @ mid @ post)"
      by (simp add: callsMade_def)
    then show "\<exists>rest. callsMade w w' = Blur a # rest" by blast
  next
    assume y: "isDescendantOfNode du (document w) targetNode (Some a) = Some True"
    then show same: "blurIfNotDescendant du targetNode w = Some w"
      using assms(2) by (simp add: blurIfNotDescendant_def)
    with b have w1: "w1 = w" by simp
    have act: "activeElement w2 = Some a" "tagName (document w2 a) = tagName (document w a)"
      using assms(2) forceVideoFocusable_frame(1,2)[of du targetNode w] by (simp_all add: w2_def w1)
    have "filter blurCall mid =
        (if \<not> isFocusable du (document w2) r \<and> tagName (document w a) \<noteq> ''BODY'' then [Blur a] else [])"
      using f mid act unfolding w2_def[symmetric]
      by (auto simp: focusOrBlur_def platform_defs split: option.splits if_splits)
    with v mid post w1 have
      "filter blurCall (callsMade w w') =
        (if \<not> isFocusable du (document w2) r \<and> tagName (document w a) \<noteq> ''BODY'' then [Blur a] else [])"
      by (simp add: callsMade_def)
    with p r show "\<exists>w2 r. prepare du targetNode w = Some w2
                   \<and> resolveTarget du (document w2) targetNode opt = Some r
                   \<and> filter blurCall (callsMade w w') =
                       (if \<not> isFocusable du (document w2) r \<and> tagName (document w a) \<noteq> ''BODY''
                        then [Blur a] else [])"
      unfolding w2_def[symmetric] by blast
  qed
qed

text \<open>
  On the page: with the focus on the button (3), \<open>setFocus\<close> on the text input
  (8), which is not below the button, blurs the button first; with the focus on
  the \<open>div\<close> (10), \<open>setFocus\<close> on the paragraph (9) inside it blurs nothing.
\<close>

theorem setFocus_initial_blur_witness:
  "(\<exists>w'. setFocus DomUtil ChromeVoxEventSuspender ((window False)\<lparr>activeElement := Some 3\<rparr>) (Some 8) False
            = Some (Inr w')
        \<and> blurIfNotDescendant DomUtil (Some 8) ((window False)\<lparr>activeElement := Some 3\<rparr>)
            = Some (blur 3 ((window False)\<lparr>activeElement := Some 3\<rparr>))
        \<and> (\<exists>rest. callsMade ((window False)\<lparr>activeElement := Some 3\<rparr>) w' = Blur 3 # rest))
   \<and> (\<exists>w'. setFocus DomUtil ChromeVoxEventSuspender ((window False)\<lparr>activeElement := Some 10\<rparr>) (Some 9) False
            = Some (Inr w')
        \<and> blurIfNotDescendant DomUtil (Some 9) ((window False)\<lparr>activeElement := Some 10\<rparr>)
            = Some ((window False)\<lparr>activeElement := Some 10\<rparr>)
        \<and> filter blurCall (callsMade ((window False)\<lparr>activeElement := Some 10\<rparr>) w') = [])"
proof -
  define wa where "wa = (window False)\<lparr>activeElement := Some 3\<rparr>"
  define wb where "wb = (window False)\<lparr>activeElement := Some 10\<rparr>"
  have "\<exists>w'. setFocus DomUtil ChromeVoxEventSuspender wa (Some 8) False = Some (Inr w')"
    by (simp add: wa_def run_defs)
  then obtain wa' where ra: "setFocus DomUtil ChromeVoxEventSuspender wa (Some 8) False = Some (Inr wa')"
    by blast
  have aa: "activeElement wa = Some 3" by (simp add: wa_def)
  have da: "isDescendantOfNode DomUtil (document wa) (Some 8) (Some 3) = Some False"
    by (simp add: wa_def run_defs)
  from setFocus_initial_blur[OF ra aa] da
  have ca: "blurIfNotDescendant DomUtil (Some 8) wa = Some (blur 3 wa)
              \<and> (\<exists>rest. callsMade wa wa' = Blur 3 # rest)"
    by blast
  have "\<exists>w'. setFocus DomUtil ChromeVoxEventSuspender wb (Some 9) False = Some (Inr w')"
    by (simp add: wb_def run_defs)
  then obtain wb' where rb: "setFocus DomUtil ChromeVoxEventSuspender wb (Some 9) False = Some (Inr wb')"
    by blast
  have ab: "activeElement wb = Some 10" by (simp add: wb_def)
  have db: "isDescendantOfNode DomUtil (document wb) (Some 9) (Some 10) = Some True"
    by (simp add: wb_def run_defs)
  have pb: "prepare DomUtil (Some 9) wb = Some wb"
    by (simp add: wb_def run_defs)
  have rsb: "resolveTarget DomUtil (document wb) (Some 9) False = Some (Some 10)"
    by (simp add: wb_def run_defs)
  have fb: "isFocusable DomUtil (document wb) (Some 10)"
    by (simp add: wb_def run_defs)
  from setFocus_initial_blur[OF rb ab] db
  have "blurIfNotDescendant DomUtil (Some 9) wb = Some wb
            \<and> (\<exists>w2 r. prepare DomUtil (Some 9) wb = Some w2
                   \<and> resolveTarget DomUtil (document w2) (Some 9) False = Some r
                   \<and> filter blurCall (callsMade wb wb') =
                       (if \<not> isFocusable DomUtil (document w2) r \<and> tagName (document wb 10) \<noteq> ''BODY''
                        then [Blur 10] else []))"
    by blast
  with pb rsb fb have cb: "blurIfNotDescendant DomUtil (Some 9) wb = Some wb
        \<and> filter blurCall (callsMade wb wb') = []"
    by auto
  from ra ca rb cb show ?thesis unfolding wa_def wb_def by blast
qed

subsection \<open>The selection\<close>

text \<open>
  C8. Let the selection hold a first range \<open>R\<close> at call time and let the call
  return. If the resolved target is not a text input, the last two calls of the
  function are \<open>removeAllRanges\<close> and \<open>addRange(R)\<close>, they are its only calls on
  the selection, and the selection it leaves is \<open>R\<close> alone. If the resolved
  target is a text input, the only call on the selection or the text box is
  \<open>select\<close> on the target: \<open>R\<close> is not put back.
\<close>

theorem setFocus_selection_restored:
  assumes "prepare du targetNode w = Some w2"
    and "resolveTarget du (document w2) targetNode opt = Some r"
    and "setFocus du es w targetNode opt = Some (Inr w')"
    and "selection w = R # rs"
  shows "(\<not> isInputTypeText du (document w2) r \<longrightarrow>
            selection w' = [R]
            \<and> filter selectionCall (callsMade w w') = [RemoveAllRanges, AddRange R]
            \<and> (\<exists>pre. callsMade w w' = pre @ [RemoveAllRanges, AddRange R]))
       \<and> (isInputTypeText du (document w2) r \<longrightarrow>
            (\<exists>n. r = Some n \<and> filter selectionCall (callsMade w w') = [Select n]))"
proof -
  from assms(1,2,3) obtain w3 where
    f: "focusOrBlur du es r w2 = Inr w3" and rs: "restoreSelection du (savedRange w) r w3 = Inr w'"
    by (auto simp: setFocus_prepare split: sum.splits)
  from prepare_trace[OF assms(1)] obtain pre where
    pre: "trace w2 = trace w @ pre" "filter selectionCall pre = []" by blast
  from focusOrBlur_trace[OF f] obtain mid where
    mid: "document w3 = document w2" "trace w3 = trace w2 @ mid" "filter selectionCall mid = []" by blast
  have sr: "savedRange w = Some R" using assms(4) by (simp add: savedRange_def)
  show ?thesis
    using rs pre mid sr
    by (cases r) (auto simp: restoreSelection_def select_def addRange_def removeAllRanges_def
        callsMade_def split: if_splits)
qed

text \<open>
  On the page, with the range \<open>Range 2 0 2 1\<close> selected: \<open>setFocus\<close> on the button
  (3) puts the range back; \<open>setFocus\<close> on the text input (8) selects its text
  instead.
\<close>

theorem setFocus_selection_restored_witness:
  "(\<exists>w'. setFocus DomUtil ChromeVoxEventSuspender (window False) (Some 3) False = Some (Inr w')
        \<and> selection w' = [Range 2 0 2 1]
        \<and> filter selectionCall (callsMade (window False) w') = [RemoveAllRanges, AddRange (Range 2 0 2 1)]
        \<and> (\<exists>pre. callsMade (window False) w' = pre @ [RemoveAllRanges, AddRange (Range 2 0 2 1)]))
   \<and> (\<exists>w'. setFocus DomUtil ChromeVoxEventSuspender (window False) (Some 8) False = Some (Inr w')
        \<and> filter selectionCall (callsMade (window False) w') = [Select 8])"
proof -
  have sel: "selection (window False) = Range 2 0 2 1 # []"
    by (simp add: window_def)
  have "\<exists>w'. setFocus DomUtil ChromeVoxEventSuspender (window False) (Some 3) False = Some (Inr w')"
    by (simp add: run_defs)
  then obtain wa where ra: "setFocus DomUtil ChromeVoxEventSuspender (window False) (Some 3) False = Some (Inr wa)"
    by blast
  have pa: "prepare DomUtil (Some 3) (window False) = Some (window False)"
    by (simp add: run_defs)
  have ta: "resolveTarget DomUtil (document (window False)) (Some 3) False = Some (Some 3)"
    by (simp add: run_defs)
  have ia: "\<not> isInputTypeText DomUtil (document (window False)) (Some 3)"
    by (simp add: run_defs)
  from setFocus_selection_restored[OF pa ta ra sel] ia
  have ca: "selection wa = [Range 2 0 2 1]
        \<and> filter selectionCall (callsMade (window False) wa) = [RemoveAllRanges, AddRange (Range 2 0 2 1)]
        \<and> (\<exists>pre. callsMade (window False) wa = pre @ [RemoveAllRanges, AddRange (Range 2 0 2 1)])"
    by blast
  have "\<exists>w'. setFocus DomUtil ChromeVoxEventSuspender (window False) (Some 8) False = Some (Inr w')"
    by (simp add: run_defs)
  then obtain wb where rb: "setFocus DomUtil ChromeVoxEventSuspender (window False) (Some 8) False = Some (Inr wb)"
    by blast
  have pb: "prepare DomUtil (Some 8) (window False) = Some (window False)"
    by (simp add: run_defs)
  have tb: "resolveTarget DomUtil (document (window False)) (Some 8) False = Some (Some 8)"
    by (simp add: run_defs)
  have ib: "isInputTypeText DomUtil (document (window False)) (Some 8)"
    by (simp add: run_defs)
  from setFocus_selection_restored[OF pb tb rb sel] ib
  have cb: "filter selectionCall (callsMade (window False) wb) = [Select 8]"
    by auto
  from ra ca rb cb show ?thesis by blast
qed

subsection \<open>Video elements\<close>

text \<open>
  C10. Let \<open>setFocus\<close> be called on a video element and return. If the element
  is not focusable at call time, it has the attribute \<open>tabIndex\<close> with value 0
  afterwards. The attribute is set before any call on \<open>focus\<close>, the timer, the
  suspender or the selection, and before the target is resolved: the state the
  call returns is the one lines 69-105 reach from the target that lines 56-66
  resolve in the document that has the attribute. So where \<open>isFocusable\<close> accepts
  the element with its tab index, the resolved target is the video itself and
  the focus call the function defers is on the video. If the element is
  focusable already, no attribute is set and the document is unchanged.
\<close>

theorem setFocus_video_tabIndex:
  assumes "setFocus du es w (Some t) opt = Some (Inr w')"
    and "constructor (document w t) = ''HTMLVideoElement''"
  shows "(\<not> isFocusable du (document w) (Some t) \<longrightarrow>
            getAttribute (document w') t ''tabIndex'' = Some ''0''
            \<and> (\<exists>w2 r w3. prepare du (Some t) w = Some w2 \<and> document w2 = document w'
                      \<and> resolveTarget du (document w2) (Some t) opt = Some r
                      \<and> focusOrBlur du es r w2 = Inr w3
                      \<and> restoreSelection du (savedRange w) r w3 = Inr w'
                      \<and> (isFocusable du (document w2) (Some t) \<longrightarrow> r = Some t))
            \<and> (isFocusable du (document w') (Some t) \<longrightarrow> tagName (document w' t) \<noteq> ''IFRAME'' \<longrightarrow>
                  timers w' = timers w @ [if areEventsSuspended es (suspendState w)
                                          then FocusThenExitSuspend t else FocusOnly t])
            \<and> (\<exists>pre post. callsMade w w' = pre @ SetAttribute t ''tabIndex'' ''0'' # post
                      \<and> filter suspensionOrFocusCall pre = [] \<and> filter selectionCall pre = []))
       \<and> (isFocusable du (document w) (Some t) \<longrightarrow>
            document w' = document w \<and> filter attributeCall (callsMade w w') = [])"
proof -
  from assms(1) obtain w1 r w3 where
    b: "blurIfNotDescendant du (Some t) w = Some w1"
    and r: "resolveTarget du (document (forceVideoFocusable du (Some t) w1)) (Some t) opt = Some r"
    and f: "focusOrBlur du es r (forceVideoFocusable du (Some t) w1) = Inr w3"
    and s: "restoreSelection du (savedRange w) r w3 = Inr w'"
    by (rule setFocus_steps)
  define w2 where "w2 = forceVideoFocusable du (Some t) w1"
  note r = r[folded w2_def] and f = f[folded w2_def]
  from blurIfNotDescendant_trace[OF b] obtain pre where
    w1: "document w1 = document w" and
    pre: "trace w1 = trace w @ pre" "filter suspensionOrFocusCall pre = []"
    "filter selectionCall pre = []" "filter attributeCall pre = []" by blast
  from focusOrBlur_trace[OF f] obtain mid where
    w3: "document w3 = document w2" and
    mid: "trace w3 = trace w2 @ mid"
    "filter attributeCall mid = []" by blast
  from restoreSelection_trace[OF s] obtain post where
    w': "document w' = document w3" and
    post: "trace w' = trace w3 @ post" "filter attributeCall post = []" by blast
  have p: "prepare du (Some t) w = Some w2"
    using b by (simp add: prepare_def w2_def)
  have dd: "document w2 = document w'" using w' w3 by simp
  have self: "r = Some t" if "isFocusable du (document w2) (Some t)"
    using r that by (simp add: resolveTarget_def searchUp.simps)
  have tm: "timers w' = timers w @ [if areEventsSuspended es (suspendState w)
                                     then FocusThenExitSuspend t else FocusOnly t]"
    if foc: "isFocusable du (document w') (Some t)" and tag: "tagName (document w' t) \<noteq> ''IFRAME''"
  proof -
    from foc dd have "isFocusable du (document w2) (Some t)" by simp
    note rt = self[OF this] and foc2 = this
    from tag dd have tag2: "tagName (document w2 t) \<noteq> ''IFRAME''" by simp
    from f rt foc2 tag2 have "timers w3 = timers w2 @ [if areEventsSuspended es (suspendState w2)
                                     then FocusThenExitSuspend t else FocusOnly t]"
      by (auto simp: focusOrBlur_def setTimeout_def enterSuspend_def split: if_splits)
    with restoreSelection_frame(1)[OF s] prepare_frame(1,2)[OF p] show ?thesis by simp
  qed
  show ?thesis
  proof (cases "isFocusable du (document w) (Some t)")
    case True
    then have "w2 = w1"
      using w1 by (simp add: forceVideoFocusable_def w2_def)
    with True w1 w3 w' pre mid post show ?thesis
      by (simp add: callsMade_def)
  next
    case False
    then have fv: "w2 = setAttribute t ''tabIndex'' ''0'' w1"
      using w1 assms(2) by (simp add: forceVideoFocusable_def w2_def)
    have d: "document w' = document (setAttribute t ''tabIndex'' ''0'' w1)"
      using w' w3 fv by simp
    have g: "getAttribute (document w') t ''tabIndex'' = Some ''0''"
      unfolding d by (simp add: setAttribute_def getAttribute_def update_conv')
    have c: "callsMade w w' = pre @ SetAttribute t ''tabIndex'' ''0'' # (mid @ post)"
      using pre(1) mid(1) post(1) fv by (simp add: callsMade_def setAttribute_def)
    have e: "\<exists>w2 r w3. prepare du (Some t) w = Some w2 \<and> document w2 = document w'
                      \<and> resolveTarget du (document w2) (Some t) opt = Some r
                      \<and> focusOrBlur du es r w2 = Inr w3
                      \<and> restoreSelection du (savedRange w) r w3 = Inr w'
                      \<and> (isFocusable du (document w2) (Some t) \<longrightarrow> r = Some t)"
      using p dd r f s self by blast
    from False g e c pre(2,3) tm show ?thesis by blast
  qed
qed

text \<open>
  On the page: the video without tab index (5) gets one, is then the resolved
  target, and the focus call is deferred on it after the attribute is set; the
  video that has a tab index (11) is left as it is.
\<close>

theorem setFocus_video_tabIndex_witness:
  "(\<exists>w'. setFocus DomUtil ChromeVoxEventSuspender (window False) (Some 5) False = Some (Inr w')
        \<and> getAttribute (document w') 5 ''tabIndex'' = Some ''0''
        \<and> resolveTarget DomUtil (document w') (Some 5) False = Some (Some 5)
        \<and> timers w' = [FocusOnly 5]
        \<and> callsMade (window False) w'
            = [SetAttribute 5 ''tabIndex'' ''0'', SetTimeout (FocusOnly 5),
               RemoveAllRanges, AddRange (Range 2 0 2 1)]
        \<and> (\<exists>pre post. callsMade (window False) w' = pre @ SetAttribute 5 ''tabIndex'' ''0'' # post
              \<and> filter suspensionOrFocusCall pre = [] \<and> filter selectionCall pre = []))
   \<and> (\<exists>w'. setFocus DomUtil ChromeVoxEventSuspender (window False) (Some 11) False = Some (Inr w')
        \<and> document w' = document (window False)
        \<and> filter attributeCall (callsMade (window False) w') = [])"
proof -
  have "\<exists>w'. setFocus DomUtil ChromeVoxEventSuspender (window False) (Some 5) False = Some (Inr w')
           \<and> resolveTarget DomUtil (document w') (Some 5) False = Some (Some 5)
           \<and> isFocusable DomUtil (document w') (Some 5)
           \<and> tagName (document w' 5) \<noteq> ''IFRAME''
           \<and> callsMade (window False) w'
            = [SetAttribute 5 ''tabIndex'' ''0'', SetTimeout (FocusOnly 5),
               RemoveAllRanges, AddRange (Range 2 0 2 1)]"
    by (simp add: run_defs)
  then obtain wa where ra: "setFocus DomUtil ChromeVoxEventSuspender (window False) (Some 5) False = Some (Inr wa)"
    and ta: "resolveTarget DomUtil (document wa) (Some 5) False = Some (Some 5)"
    and ia: "isFocusable DomUtil (document wa) (Some 5)" "tagName (document wa 5) \<noteq> ''IFRAME''"
    and la: "callsMade (window False) wa
            = [SetAttribute 5 ''tabIndex'' ''0'', SetTimeout (FocusOnly 5),
               RemoveAllRanges, AddRange (Range 2 0 2 1)]"
    by blast
  have va: "constructor (document (window False) 5) = ''HTMLVideoElement''"
    by (simp add: run_defs)
  have fa: "\<not> isFocusable DomUtil (document (window False)) (Some 5)"
    by (simp add: run_defs)
  have sa: "\<not> areEventsSuspended ChromeVoxEventSuspender (suspendState (window False))"
    "timers (window False) = []"
    by (simp_all add: window_def ChromeVoxEventSuspender_def)
  from setFocus_video_tabIndex[OF ra va] fa ia
  have "getAttribute (document wa) 5 ''tabIndex'' = Some ''0''
        \<and> timers wa = timers (window False) @ [if areEventsSuspended ChromeVoxEventSuspender (suspendState (window False))
                                          then FocusThenExitSuspend 5 else FocusOnly 5]
        \<and> (\<exists>pre post. callsMade (window False) wa = pre @ SetAttribute 5 ''tabIndex'' ''0'' # post
              \<and> filter suspensionOrFocusCall pre = [] \<and> filter selectionCall pre = [])"
    by blast
  with sa have ca: "getAttribute (document wa) 5 ''tabIndex'' = Some ''0''
        \<and> timers wa = [FocusOnly 5]
        \<and> (\<exists>pre post. callsMade (window False) wa = pre @ SetAttribute 5 ''tabIndex'' ''0'' # post
              \<and> filter suspensionOrFocusCall pre = [] \<and> filter selectionCall pre = [])"
    by simp
  have "\<exists>w'. setFocus DomUtil ChromeVoxEventSuspender (window False) (Some 11) False = Some (Inr w')"
    by (simp add: run_defs)
  then obtain wb where rb: "setFocus DomUtil ChromeVoxEventSuspender (window False) (Some 11) False = Some (Inr wb)"
    by blast
  have vb: "constructor (document (window False) 11) = ''HTMLVideoElement''"
    by (simp add: run_defs)
  have fb: "isFocusable DomUtil (document (window False)) (Some 11)"
    by (simp add: run_defs)
  from setFocus_video_tabIndex[OF rb vb] fb
  have cb: "document wb = document (window False)
        \<and> filter attributeCall (callsMade (window False) wb) = []"
    by blast
  from ra ta la ca rb cb show ?thesis by blast
qed

subsection \<open>The walk up the parent chain\<close>

lemma nthAncestor_None: "nthAncestor d None k = None"
  by (cases k) simp_all

lemma nthAncestor_add: "nthAncestor d x (i + j) = nthAncestor d (nthAncestor d x i) j"
proof (induction i arbitrary: x)
  case 0
  then show ?case by simp
next
  case (Suc i)
  then show ?case by (cases x) (simp_all add: nthAncestor_None)
qed

lemma nthAncestor_None_later:
  assumes "nthAncestor d x j = None" and "j \<le> j'"
  shows "nthAncestor d x j' = None"
proof -
  from assms(2) obtain e where "j' = j + e" using le_Suc_ex by blast
  then show ?thesis using assms(1) by (simp add: nthAncestor_add nthAncestor_None)
qed

text \<open>
  On a finite chain the loop of lines 63-65 returns: it yields the first node of
  the chain that is \<open>null\<close> or focusable, having passed only nodes that are
  neither.
\<close>

lemma searchUp_first_focusable:
  assumes "nthAncestor d targetNode k = None"
  shows "\<exists>j\<le>k. searchUp du d targetNode = Some (nthAncestor d targetNode j)
           \<and> (\<forall>i<j. nthAncestor d targetNode i \<noteq> None
                    \<and> \<not> isFocusable du d (nthAncestor d targetNode i))
           \<and> (nthAncestor d targetNode j = None \<or> isFocusable du d (nthAncestor d targetNode j))"
  using assms
proof (induction k arbitrary: targetNode)
  case 0
  then have "targetNode = None" by simp
  then show ?case by (simp add: searchUp.simps)
next
  case (Suc k)
  show ?case
  proof (cases targetNode)
    case None
    then show ?thesis by (intro exI[of _ 0]) (simp add: searchUp.simps)
  next
    case (Some m)
    show ?thesis
    proof (cases "isFocusable du d (Some m)")
      case True
      with Some have "searchUp du d targetNode = Some (nthAncestor d targetNode 0)"
        by (simp add: searchUp.simps)
      with True Some show ?thesis by (intro exI[of _ 0]) simp
    next
      case False
      from Suc.prems Some have "nthAncestor d (parentNode (d m)) k = None" by simp
      from Suc.IH[OF this] obtain j where j: "j \<le> k"
        "searchUp du d (parentNode (d m)) = Some (nthAncestor d (parentNode (d m)) j)"
        "\<forall>i<j. nthAncestor d (parentNode (d m)) i \<noteq> None
               \<and> \<not> isFocusable du d (nthAncestor d (parentNode (d m)) i)"
        "nthAncestor d (parentNode (d m)) j = None
           \<or> isFocusable du d (nthAncestor d (parentNode (d m)) j)"
        by blast
      have s: "searchUp du d targetNode = Some (nthAncestor d targetNode (Suc j))"
        using Some False j(2) by (subst searchUp.simps) simp
      have b: "\<forall>i<Suc j. nthAncestor d targetNode i \<noteq> None
                \<and> \<not> isFocusable du d (nthAncestor d targetNode i)"
      proof (intro allI impI)
        fix i assume "i < Suc j"
        then show "nthAncestor d targetNode i \<noteq> None \<and> \<not> isFocusable du d (nthAncestor d targetNode i)"
          using Some False j(3) by (cases i) auto
      qed
      have e: "nthAncestor d targetNode (Suc j) = None
                 \<or> isFocusable du d (nthAncestor d targetNode (Suc j))"
        using Some j(4) by simp
      from j(1) s b e show ?thesis by (intro exI[of _ "Suc j"]) simp
    qed
  qed
qed

text \<open>
  The loop returns only then: on a chain that never reaches \<open>null\<close> or a
  focusable node (a cycle of nodes that are not focusable) it does not return.
\<close>

lemma searchUp_returns_only_if:
  assumes "searchUp du d x = Some y"
  shows "\<exists>k. nthAncestor d x k = None \<or> isFocusable du d (nthAncestor d x k)"
  using assms
proof (induction du d x y rule: searchUp.raw_induct[rotated 1, consumes 1])
  case (1 searchUp' du d x y)
  show ?case
  proof (cases x)
    case None
    then have "nthAncestor d x 0 = None" by simp
    then show ?thesis by blast
  next
    case (Some m)
    show ?thesis
    proof (cases "isFocusable du d (Some m)")
      case True
      with Some have "isFocusable du d (nthAncestor d x 0)" by simp
      then show ?thesis by blast
    next
      case False
      with 1(2) Some have "searchUp' du d (parentNode (d m)) = Some y" by simp
      from 1(1)[OF this] obtain k where
        "nthAncestor d (parentNode (d m)) k = None
           \<or> isFocusable du d (nthAncestor d (parentNode (d m)) k)"
        by blast
      with Some have "nthAncestor d x (Suc k) = None \<or> isFocusable du d (nthAncestor d x (Suc k))"
        by simp
      then show ?thesis by blast
    qed
  qed
qed

text \<open>
  C9. When \<open>focusDescendants\<close> is false, or the target is focusable so that the
  descendant branch is not taken, and the parent chain of the target is finite
  (its \<open>k\<close>-th node is \<open>null\<close>; a cyclic chain has no such \<open>k\<close>), the resolution of
  lines 56-66 returns. Its result is the \<open>j\<close>-th node of the chain for some
  \<open>j \<le> k\<close> such that every node before it is a node that is not focusable, and it
  is itself focusable or \<open>null\<close>: the first focusable node of the chain, or \<open>null\<close>
  when the chain is exhausted.
\<close>

theorem resolveTarget_parent_walk:
  assumes "\<not> opt \<or> isFocusable du d targetNode"
    and "nthAncestor d targetNode k = None"
  shows "\<exists>j\<le>k. resolveTarget du d targetNode opt = Some (nthAncestor d targetNode j)
           \<and> (\<forall>i<j. nthAncestor d targetNode i \<noteq> None
                    \<and> \<not> isFocusable du d (nthAncestor d targetNode i))
           \<and> (nthAncestor d targetNode j = None \<or> isFocusable du d (nthAncestor d targetNode j))"
proof -
  have "resolveTarget du d targetNode opt = searchUp du d targetNode"
    using assms(1) by (auto simp: resolveTarget_def)
  then show ?thesis using searchUp_first_focusable[OF assms(2), of du] by simp
qed

text \<open>
  On the page: from the \<open>span\<close> (2) the chain is 2, 1, 0 and then \<open>null\<close>, with no
  focusable node, so the result is \<open>null\<close>; from the paragraph (9) the walk
  stops at its parent (10).
\<close>

theorem resolveTarget_parent_walk_witness:
  "(\<exists>j\<le>3. resolveTarget DomUtil page (Some 2) False = Some (nthAncestor page (Some 2) j)
           \<and> (\<forall>i<j. nthAncestor page (Some 2) i \<noteq> None
                    \<and> \<not> isFocusable DomUtil page (nthAncestor page (Some 2) i))
           \<and> (nthAncestor page (Some 2) j = None \<or> isFocusable DomUtil page (nthAncestor page (Some 2) j)))
   \<and> resolveTarget DomUtil page (Some 2) False = Some None
   \<and> resolveTarget DomUtil page (Some 9) False = Some (Some 10)"
proof -
  have o: "\<not> False \<or> isFocusable DomUtil page (Some 2)" by simp
  have c: "nthAncestor page (Some 2) 3 = None"
    by (simp add: eval_nat_numeral page_def element_def textNode_def)
  have v: "resolveTarget DomUtil page (Some 2) False = Some None"
    "resolveTarget DomUtil page (Some 9) False = Some (Some 10)"
    by (simp_all add: run_defs)
  from resolveTarget_parent_walk[OF o c] v show ?thesis by blast
qed

text \<open>
  So \<open>setFocus\<close> itself returns (with a state or a TypeError) once lines 44-47 have
  returned and the parent chain of the target is finite.
\<close>

lemma setFocus_returns_on_finite_chain:
  assumes "prepare du targetNode w = Some w2"
    and "\<not> opt \<or> isFocusable du (document w2) targetNode"
    and "nthAncestor (document w2) targetNode k = None"
  shows "setFocus du es w targetNode opt \<noteq> None"
proof -
  have "resolveTarget du (document w2) targetNode opt = searchUp du (document w2) targetNode"
    using assms(2) by (auto simp: resolveTarget_def)
  with searchUp_first_focusable[OF assms(3), of du]
  obtain r where "resolveTarget du (document w2) targetNode opt = Some r" by auto
  then show ?thesis by (simp add: setFocus_prepare assms(1))
qed

subsection \<open>The helpers as modelled from the spec\<close>

text \<open>
  On a finite parent chain the modelled \<open>isDescendantOfNode\<close> returns, and says
  whether the second node is on the chain of the first.
\<close>

lemma spec_isDescendantOfNode_chain:
  assumes "nthAncestor d n k = None"
  shows "spec_isDescendantOfNode d n (Some a) = Some (\<exists>i<k. nthAncestor d n i = Some a)"
  using assms
proof (induction k arbitrary: n)
  case 0
  then show ?case by (simp add: spec_isDescendantOfNode.simps)
next
  case (Suc k)
  show ?case
  proof (cases n)
    case None
    then show ?thesis by (simp add: spec_isDescendantOfNode.simps nthAncestor_None)
  next
    case (Some m)
    show ?thesis
    proof (cases "m = a")
      case True
      with Some have "nthAncestor d n 0 = Some a" by simp
      then have "\<exists>i<Suc k. nthAncestor d n i = Some a" by blast
      with True Some show ?thesis by (simp add: spec_isDescendantOfNode.simps)
    next
      case False
      from Suc.prems Some have "nthAncestor d (parentNode (d m)) k = None" by simp
      from Suc.IH[OF this]
      have ih: "spec_isDescendantOfNode d (parentNode (d m)) (Some a)
              = Some (\<exists>i<k. nthAncestor d (parentNode (d m)) i = Some a)" .
      have "(\<exists>i<Suc k. nthAncestor d n i = Some a)
          = (\<exists>i<k. nthAncestor d (parentNode (d m)) i = Some a)"
      proof
        assume "\<exists>i<Suc k. nthAncestor d n i = Some a"
        then obtain i where i: "i < Suc k" "nthAncestor d n i = Some a" by blast
        with Some False obtain i' where "i = Suc i'" by (cases i) auto
        with i Some show "\<exists>i<k. nthAncestor d (parentNode (d m)) i = Some a" by auto
      next
        assume "\<exists>i<k. nthAncestor d (parentNode (d m)) i = Some a"
        then obtain i where "i < k" "nthAncestor d (parentNode (d m)) i = Some a" by blast
        with Some have "Suc i < Suc k" "nthAncestor d n (Suc i) = Some a" by simp_all
        then show "\<exists>i<Suc k. nthAncestor d n i = Some a" by blast
      qed
      with ih Some False show ?thesis by (subst spec_isDescendantOfNode.simps) simp
    qed
  qed
qed

lemma depthWithin_Suc: "depthWithin k d n \<Longrightarrow> depthWithin (Suc k) d n"
proof (induction k arbitrary: n)
  case 0
  then show ?case by simp
next
  case (Suc k)
  from Suc.prems have "list_all (depthWithin k d) (childNodes (d n))" by simp
  then have "list_all (depthWithin (Suc k) d) (childNodes (d n))"
    using Suc.IH by (simp add: list_all_iff del: depthWithin.simps)
  then show ?case by (subst depthWithin.simps(2))
qed

lemma preorder_stable: "depthWithin k d n \<Longrightarrow> preorder (Suc k) d n = preorder k d n"
proof (induction k arbitrary: n)
  case 0
  then show ?case by simp
next
  case (Suc k)
  from Suc.prems have "list_all (depthWithin k d) (childNodes (d n))" by simp
  then have "\<forall>c\<in>set (childNodes (d n)). preorder (Suc k) d c = preorder k d c"
    using Suc.IH by (simp add: list_all_iff del: preorder.simps)
  then have "map (\<lambda>c. c # preorder (Suc k) d c) (childNodes (d n))
           = map (\<lambda>c. c # preorder k d c) (childNodes (d n))"
    by (simp del: preorder.simps)
  then show ?case
    by (simp only: preorder.simps(2)[of "Suc k" d n] preorder.simps(2)[of k d n])
qed

text \<open>
  The search with a stack returns, on trees of bounded depth, the first node of
  the pre-order listing that satisfies the test.
\<close>

lemma preorderSearch_forest:
  assumes "list_all (depthWithin k d) stack"
  shows "preorderSearch P d stack
       = Some (find (\<lambda>m. P d (Some m)) (concat (map (\<lambda>c. c # preorder k d c) stack)))"
  using assms
proof (induction "length (concat (map (\<lambda>c. c # preorder k d c) stack))"
    arbitrary: stack rule: less_induct)
  case less
  show ?case
  proof (cases stack)
    case Nil
    then show ?thesis by (simp add: preorderSearch.simps)
  next
    case (Cons n rest)
    show ?thesis
    proof (cases "P d (Some n)")
      case True
      with Cons show ?thesis by (simp add: preorderSearch.simps)
    next
      case False
      from less.prems Cons have dn: "depthWithin k d n" and dr: "list_all (depthWithin k d) rest"
        by simp_all
      have dc: "list_all (depthWithin k d) (childNodes (d n))"
        using depthWithin_Suc[OF dn] by simp
      have st: "concat (map (\<lambda>c. c # preorder k d c) (childNodes (d n))) = preorder k d n"
        using preorder_stable[OF dn] by simp
      have fl: "concat (map (\<lambda>c. c # preorder k d c) (childNodes (d n) @ rest))
              = preorder k d n @ concat (map (\<lambda>c. c # preorder k d c) rest)"
        using st by simp
      have "preorderSearch P d (childNodes (d n) @ rest)
          = Some (find (\<lambda>m. P d (Some m))
                   (concat (map (\<lambda>c. c # preorder k d c) (childNodes (d n) @ rest))))"
      proof (rule less.hyps)
        show "length (concat (map (\<lambda>c. c # preorder k d c) (childNodes (d n) @ rest)))
            < length (concat (map (\<lambda>c. c # preorder k d c) stack))"
          unfolding fl using Cons by simp
        show "list_all (depthWithin k d) (childNodes (d n) @ rest)"
          using dc dr by simp
      qed
      moreover have "preorderSearch P d stack = preorderSearch P d (childNodes (d n) @ rest)"
        using Cons False by (subst preorderSearch.simps) simp
      ultimately show ?thesis
        unfolding fl using Cons False by simp
    qed
  qed
qed

lemma spec_findFocusableDescendant_preorder:
  assumes "depthWithin k d n"
  shows "spec_findFocusableDescendant P d (Some n)
       = Some (find (\<lambda>m. P d (Some m)) (preorder k d n))"
proof -
  have "list_all (depthWithin k d) (childNodes (d n))"
    using depthWithin_Suc[OF assms] by simp
  from preorderSearch_forest[OF this, of P] preorder_stable[OF assms]
  show ?thesis by (simp add: spec_findFocusableDescendant_def)
qed

text \<open>A descendant has the node on its parent chain, and is not on the node's own.\<close>

lemma preorder_below:
  assumes "parentLinked k d n" and "m \<in> set (preorder k d n)"
  shows "\<exists>i. nthAncestor d (Some m) (Suc i) = Some n"
  using assms
proof (induction k arbitrary: n)
  case 0
  then show ?case by simp
next
  case (Suc k)
  from Suc.prems(2) obtain c where c: "c \<in> set (childNodes (d n))"
    and m: "m = c \<or> m \<in> set (preorder k d c)"
    by auto
  from Suc.prems(1) c have pc: "parentNode (d c) = Some n" and lc: "parentLinked k d c"
    by (simp_all add: list_all_iff)
  from m show ?case
  proof
    assume "m = c"
    with pc have "nthAncestor d (Some m) (Suc 0) = Some n" by simp
    then show ?thesis by blast
  next
    assume "m \<in> set (preorder k d c)"
    from Suc.IH[OF lc this] obtain i where i: "nthAncestor d (Some m) (Suc i) = Some c" by blast
    have "nthAncestor d (Some m) (Suc i + Suc 0) = nthAncestor d (nthAncestor d (Some m) (Suc i)) (Suc 0)"
      by (rule nthAncestor_add)
    with i pc have "nthAncestor d (Some m) (Suc (Suc i)) = Some n" by simp
    then show ?thesis by blast
  qed
qed

lemma nthAncestor_period:
  assumes "nthAncestor d x p = x"
  shows "nthAncestor d x (m * p) = x"
proof (induction m)
  case 0
  then show ?case by simp
next
  case (Suc m)
  have "nthAncestor d x (Suc m * p) = nthAncestor d x (m * p + p)" by (simp add: add.commute)
  also have "\<dots> = nthAncestor d (nthAncestor d x (m * p)) p" by (rule nthAncestor_add)
  finally show ?case using Suc assms by simp
qed

lemma descendant_not_ancestor:
  assumes "nthAncestor d (Some m) (Suc i) = Some n" and "nthAncestor d (Some n) j = None"
  shows "nthAncestor d (Some n) i' \<noteq> Some m"
proof
  assume a: "nthAncestor d (Some n) i' = Some m"
  have "nthAncestor d (Some n) (i' + Suc i) = nthAncestor d (nthAncestor d (Some n) i') (Suc i)"
    by (rule nthAncestor_add)
  with a assms(1) have per: "nthAncestor d (Some n) (i' + Suc i) = Some n" by simp
  have "nthAncestor d (Some n) (j * (i' + Suc i)) = Some n"
    by (rule nthAncestor_period[OF per])
  moreover have "nthAncestor d (Some n) (j * (i' + Suc i)) = None"
    by (rule nthAncestor_None_later[OF assms(2)]) simp
  ultimately show False by simp
qed

subsection \<open>The first focusable descendant\<close>

text \<open>
  C4, as amended. Take \<open>findFocusableDescendant\<close> as modelled from the spec (the
  pre-order search, with the focusability test of the same \<open>DomUtil\<close>). For
  \<open>setFocus(N, true)\<close> where \<open>N\<close> is not focusable when line 56 tests it, that
  is, in the document that lines 50-54 leave (for an \<open>N\<close> that is not a video
  element, the document of the call, by \<open>prepare_document_unchanged\<close>), the tree
  below \<open>N\<close> is finite (no deeper than \<open>k\<close>) and its pre-order listing is
  \<open>before @ D # after\<close> with \<open>D\<close> focusable and no node of \<open>before\<close> focusable, the
  resolved target is \<open>D\<close>. Where the children below \<open>N\<close> have their parent
  pointers set and the parent chain of \<open>N\<close> is finite, \<open>D\<close> is no node of that
  chain: it is neither \<open>N\<close> nor an ancestor of \<open>N\<close>. The call returns, and unless
  \<open>D\<close> is an iframe the focus call it defers is on \<open>D\<close>. The claim as stated,
  for every \<open>N\<close> that is not focusable at call time, fails for a video
  element: see the counterexample below.
\<close>

theorem setFocus_first_focusable_descendant:
  assumes "prepare du (Some N) w = Some w2"
    and "findFocusableDescendant du = spec_findFocusableDescendant (isFocusable du)"
    and "\<not> isFocusable du (document w2) (Some N)"
    and "depthWithin k (document w2) N"
    and "preorder k (document w2) N = before @ D # after"
    and "\<forall>m\<in>set before. \<not> isFocusable du (document w2) (Some m)"
    and "isFocusable du (document w2) (Some D)"
    and "parentLinked k (document w2) N"
    and "nthAncestor (document w2) (Some N) j = None"
  shows "resolveTarget du (document w2) (Some N) True = Some (Some D)
       \<and> (\<forall>i. nthAncestor (document w2) (Some N) i \<noteq> Some D)
       \<and> (\<exists>w'. setFocus du es w (Some N) True = Some (Inr w')
             \<and> (tagName (document w2 D) \<noteq> ''IFRAME'' \<longrightarrow>
                  timers w' = timers w @ [if areEventsSuspended es (suspendState w)
                                          then FocusThenExitSuspend D else FocusOnly D]))"
proof -
  have "find (\<lambda>m. isFocusable du (document w2) (Some m)) (preorder k (document w2) N) = Some D"
    unfolding assms(5) using assms(6,7) by (induction before) simp_all
  with spec_findFocusableDescendant_preorder[OF assms(4), of "isFocusable du"] assms(2)
  have "findFocusableDescendant du (document w2) (Some N) = Some (Some D)" by simp
  with assms(3) have r: "resolveTarget du (document w2) (Some N) True = Some (Some D)"
    by (simp add: resolveTarget_def)
  have "D \<in> set (preorder k (document w2) N)" unfolding assms(5) by simp
  from preorder_below[OF assms(8) this] obtain i where
    "nthAncestor (document w2) (Some D) (Suc i) = Some N" by blast
  from descendant_not_ancestor[OF this assms(9)]
  have a: "\<forall>i. nthAncestor (document w2) (Some N) i \<noteq> Some D" by blast
  have "\<exists>w'. setFocus du es w (Some N) True = Some (Inr w')
             \<and> (tagName (document w2 D) \<noteq> ''IFRAME'' \<longrightarrow>
                  timers w' = timers w @ [if areEventsSuspended es (suspendState w)
                                          then FocusThenExitSuspend D else FocusOnly D])"
    using assms(7) r prepare_frame[OF assms(1)]
    by (auto simp: setFocus_prepare assms(1) focusOrBlur_def restoreSelection_def
          select_def addRange_def removeAllRanges_def setTimeout_def enterSuspend_def
        split: option.splits)
  with r a show ?thesis by blast
qed

text \<open>
  On the page: below the \<open>div\<close> (1) the pre-order listing is 2, 4, 3; the
  \<open>span\<close> (2) is not focusable, so the link (4) is the target, ahead of the
  button (3), which is nearer to the \<open>div\<close> but later in the listing.
\<close>

theorem setFocus_first_focusable_descendant_witness:
  "preorder 2 page 1 = [2, 4, 3]
   \<and> resolveTarget DomUtil page (Some 1) True = Some (Some 4)
   \<and> (\<forall>i. nthAncestor page (Some 1) i \<noteq> Some 4)
   \<and> (\<exists>w'. setFocus DomUtil ChromeVoxEventSuspender (window True) (Some 1) True = Some (Inr w')
          \<and> timers w' = [FocusThenExitSuspend 4])"
proof -
  have d: "document (window True) = page" by (simp add: window_def)
  have p: "prepare DomUtil (Some 1) (window True) = Some (window True)"
    by (simp add: run_defs)
  have h: "findFocusableDescendant DomUtil = spec_findFocusableDescendant (isFocusable DomUtil)"
    by (simp add: DomUtil_def)
  have n: "\<not> isFocusable DomUtil (document (window True)) (Some 1)"
    by (simp add: run_defs)
  have dw: "depthWithin 2 (document (window True)) 1"
    by (simp add: eval_nat_numeral window_def page_def element_def textNode_def)
  have po: "preorder 2 page 1 = [2, 4, 3]"
    by (simp add: eval_nat_numeral page_def element_def textNode_def)
  then have pr: "preorder 2 (document (window True)) 1 = [2] @ 4 # [3]"
    by (simp add: d)
  have b: "\<forall>m\<in>set [2]. \<not> isFocusable DomUtil (document (window True)) (Some m)"
    by (simp add: run_defs)
  have f: "isFocusable DomUtil (document (window True)) (Some 4)"
    by (simp add: run_defs)
  have l: "parentLinked 2 (document (window True)) 1"
    by (simp add: eval_nat_numeral window_def page_def element_def textNode_def)
  have c: "nthAncestor (document (window True)) (Some 1) 2 = None"
    by (simp add: eval_nat_numeral window_def page_def element_def textNode_def)
  have t: "tagName (document (window True) 4) \<noteq> ''IFRAME''"
    "areEventsSuspended ChromeVoxEventSuspender (suspendState (window True))"
    "timers (window True) = []"
    by (simp_all add: window_def page_def element_def ChromeVoxEventSuspender_def)
  from setFocus_first_focusable_descendant[OF p h n dw pr b f l c, of ChromeVoxEventSuspender] t
  have "resolveTarget DomUtil (document (window True)) (Some 1) True = Some (Some 4)
       \<and> (\<forall>i. nthAncestor (document (window True)) (Some 1) i \<noteq> Some 4)
       \<and> (\<exists>w'. setFocus DomUtil ChromeVoxEventSuspender (window True) (Some 1) True = Some (Inr w')
             \<and> timers w' = [FocusThenExitSuspend 4])"
    by simp
  with po show ?thesis unfolding d by blast
qed


text \<open>
  The claim without the amendment fails. On the page with the video (12)
  around a link (13), the video is not focusable at call time and its only
  descendant, the link, is focusable; but lines 50-54 give the video a tab
  index before line 56 tests it, the descendants are not searched, and
  \<open>setFocus(video, true)\<close> defers the focus call on the video, not on the link.
\<close>

theorem setFocus_video_with_link_counterexample:
  "\<not> isFocusable DomUtil (document (videoWindow False)) (Some 12)
   \<and> depthWithin 1 (document (videoWindow False)) 12
   \<and> preorder 1 (document (videoWindow False)) 12 = [13]
   \<and> isFocusable DomUtil (document (videoWindow False)) (Some 13)
   \<and> findFocusableDescendant DomUtil (document (videoWindow False)) (Some 12) = Some (Some 13)
   \<and> map_option (map_sum id timers)
         (setFocus DomUtil ChromeVoxEventSuspender (videoWindow False) (Some 12) True)
       = Some (Inr [FocusOnly 12])
   \<and> map_option (map_sum id (callsMade (videoWindow False)))
         (setFocus DomUtil ChromeVoxEventSuspender (videoWindow False) (Some 12) True)
       = Some (Inr [SetAttribute 12 ''tabIndex'' ''0'', SetTimeout (FocusOnly 12),
                    RemoveAllRanges, AddRange (Range 2 0 2 1)])"
  by (simp add: run_defs videoPage_def videoWindow_def)

end
